theory Spec2Isabelle
  imports
    Main
    "HOL-Library.Multiset"
    "HOL-Library.Char_ord"
    "HOL-Library.List_Lexorder"
begin

section \<open>Multi-party document signing: canonical form, signing and verification\<close>

text \<open>
  A shallow embedding of the document provider (\<^verbatim>\<open>src/app/provider/DocumentProvider.tsx\<close>),
  of the JSON utilities it imports (\<^verbatim>\<open>canonicalizeJSON\<close>) and of the types of
  \<^verbatim>\<open>src/app/types/document.ts\<close>. Identifiers, names, hashes and messages are
  \<^typ>\<open>string\<close>; the strings of structured content, whose order decides the canonical
  form, are sequences of UTF-16 code units.
\<close>

subsection \<open>Errors\<close>

text \<open>
  The errors the provider throws, one constructor for each message, and the errors of the
  runtime and of the libraries that can arise inside it: the RangeError of
  \<^verbatim>\<open>toISOString\<close>, a TypeError with its message, the rejected argument of
  \<^verbatim>\<open>ethers.toUtf8Bytes\<close>.
\<close>

datatype failure =
    NotAuthenticated
  | DocumentNotFound
  | AlreadySigned
  | NotARequiredSigner
  | SigningFailed
  | RangeError
  | TypeError string
  | InvalidArgument
  | LibraryError string

text \<open>\<^verbatim>\<open>err.message\<close>.\<close>

fun errorMessage :: "failure \<Rightarrow> string" where
  "errorMessage NotAuthenticated = ''User not authenticated or wallet not connected''"
| "errorMessage DocumentNotFound = ''Document not found''"
| "errorMessage AlreadySigned = ''You have already signed this document''"
| "errorMessage NotARequiredSigner = ''You are not a required signer for this document''"
| "errorMessage SigningFailed = ''Signature failed''"
| "errorMessage RangeError = ''Invalid time value''"
| "errorMessage (TypeError m) = m"
| "errorMessage InvalidArgument = ''invalid string value''"
| "errorMessage (LibraryError m) = m"

subsection \<open>JavaScript values and \<^verbatim>\<open>canonicalizeJSON\<close>\<close>

text \<open>
  A string of structured content is the sequence of its UTF-16 code units, each a number
  below \<open>65536\<close>; \<open>ascii\<close> gives the code units of a literal. The default
  \<^verbatim>\<open>Array.prototype.sort\<close> compares two strings code unit by code unit, which is the
  order of \<^typ>\<open>nat list\<close>.
\<close>

type_synonym jsString = "nat list"

definition ascii :: "string \<Rightarrow> jsString" where
  "ascii s = map of_char s"

text \<open>
  The values \<^verbatim>\<open>canonicalizeJSON\<close> can be given: those of \<^verbatim>\<open>JSON.parse\<close>,
  \<^verbatim>\<open>undefined\<close>, a BigInt, and a function or symbol (\<open>JFunction\<close>: all that matters of
  it is that \<^verbatim>\<open>typeof\<close> is not \<^verbatim>\<open>'object'\<close> and that \<^verbatim>\<open>JSON.stringify\<close> returns
  \<^verbatim>\<open>undefined\<close> for it). The type \<open>'n\<close> is the type of numbers. An object is the list of
  its own enumerable string-keyed properties in the order of \<^verbatim>\<open>Object.keys\<close>; the keys of
  an object are distinct. Values are finite trees: an object graph with a cycle, on which
  the code recurses until the stack overflows, has no counterpart here.
\<close>

datatype 'n json =
    JNull
  | JUndefined
  | JBool bool
  | JNum 'n
  | JStr jsString
  | JBigInt int
  | JFunction
  | JArr "'n json list"
  | JObj "(jsString \<times> 'n json) list"

text \<open>\<^verbatim>\<open>items.join(sep)\<close> on an array of strings.\<close>

fun join :: "'a list \<Rightarrow> 'a list list \<Rightarrow> 'a list" where
  "join sep [] = []"
| "join sep [x] = x"
| "join sep (x # y # ys) = x @ sep @ join sep (y # ys)"

text \<open>\<^verbatim>\<open>obj[key]\<close>: the value of the property, \<^verbatim>\<open>undefined\<close> when there is none.\<close>

definition getProp :: "(jsString \<times> 'n json) list \<Rightarrow> jsString \<Rightarrow> 'n json" where
  "getProp kvs key = (case map_of kvs key of None \<Rightarrow> JUndefined | Some v \<Rightarrow> v)"

text \<open>
  \<^verbatim>\<open>JSON.stringify\<close> on a boolean and on a string (ECMAScript's QuoteJSONString: the
  two-character escapes, \<^verbatim>\<open>\uXXXX\<close> in lower-case digits for the other control characters
  and for a surrogate that has no partner, everything else as it is). The rendering of a
  number is a parameter of \<open>canonicalizeJSON\<close>.
\<close>

fun stringifyBool :: "bool \<Rightarrow> jsString" where
  "stringifyBool True = ascii ''true''"
| "stringifyBool False = ascii ''false''"

definition digitChar :: "nat \<Rightarrow> char" where
  "digitChar n = ''0123456789abcdef'' ! n"

definition isHighSurrogate :: "nat \<Rightarrow> bool" where
  "isHighSurrogate c \<longleftrightarrow> 0xD800 \<le> c \<and> c \<le> 0xDBFF"

definition isLowSurrogate :: "nat \<Rightarrow> bool" where
  "isLowSurrogate c \<longleftrightarrow> 0xDC00 \<le> c \<and> c \<le> 0xDFFF"

definition unicodeEscape :: "nat \<Rightarrow> jsString" where
  "unicodeEscape c =
     [0x5C] @ ascii [CHR ''u'', digitChar (c div 4096 mod 16), digitChar (c div 256 mod 16),
                     digitChar (c div 16 mod 16), digitChar (c mod 16)]"

definition quoteUnit :: "nat \<Rightarrow> jsString" where
  "quoteUnit c =
     (if c = 0x08 then [0x5C] @ ascii ''b''
      else if c = 0x09 then [0x5C] @ ascii ''t''
      else if c = 0x0A then [0x5C] @ ascii ''n''
      else if c = 0x0C then [0x5C] @ ascii ''f''
      else if c = 0x0D then [0x5C] @ ascii ''r''
      else if c = 0x22 then [0x5C, 0x22]
      else if c = 0x5C then [0x5C, 0x5C]
      else if c < 0x20 \<or> isHighSurrogate c \<or> isLowSurrogate c then unicodeEscape c
      else [c])"

fun quoteUnits :: "jsString \<Rightarrow> jsString" where
  "quoteUnits [] = []"
| "quoteUnits (c # cs) =
     (if isHighSurrogate c \<and> cs \<noteq> [] \<and> isLowSurrogate (hd cs)
      then c # hd cs # quoteUnits (tl cs)
      else quoteUnit c @ quoteUnits cs)"

definition stringifyString :: "jsString \<Rightarrow> jsString" where
  "stringifyString s = [0x22] @ quoteUnits s @ [0x22]"

text \<open>
  The results of the calls made by \<^verbatim>\<open>map\<close>, in order: the first exception ends the
  whole, otherwise every result is there.
\<close>

fun collect :: "(failure + 'a) list \<Rightarrow> failure + 'a list" where
  "collect [] = Inr []"
| "collect (Inl e # rs) = Inl e"
| "collect (Inr x # rs) = (case collect rs of Inl e \<Rightarrow> Inl e | Inr xs \<Rightarrow> Inr (x # xs))"

text \<open>
  How a result that may be \<^verbatim>\<open>undefined\<close> (\<open>None\<close>) is written by
  \<^verbatim>\<open>Array.prototype.join\<close>, as the empty string, and by a template literal, as the text
  \<open>undefined\<close>.
\<close>

fun joinText :: "jsString option \<Rightarrow> jsString" where
  "joinText None = []"
| "joinText (Some s) = s"

fun templateText :: "jsString option \<Rightarrow> jsString" where
  "templateText None = ascii ''undefined''"
| "templateText (Some s) = s"

lemma size_getProp:
  "key \<in> fst ` set kvs \<Longrightarrow>
     size (getProp kvs key) < Suc (size_list (size_prod (\<lambda>_. 0) size) kvs)"
  by (induction kvs) (fastforce simp: getProp_def)+

text \<open>
  \<^verbatim>\<open>canonicalizeJSON(obj)\<close>, branch by branch: \<^verbatim>\<open>null\<close>; \<^verbatim>\<open>undefined\<close>; whatever is not
  an object through \<^verbatim>\<open>JSON.stringify\<close>, which throws a TypeError on a BigInt and returns
  \<^verbatim>\<open>undefined\<close> for a function or a symbol; arrays in their order; objects through
  \<^verbatim>\<open>Object.keys(obj).sort()\<close> and \<^verbatim>\<open>obj[key]\<close>. A key is written between quotes as it
  is, without escaping. The result is \<open>Inl\<close> for an exception, \<open>Inr None\<close> for
  \<^verbatim>\<open>undefined\<close>, \<open>Inr (Some s)\<close> for the string \<open>s\<close>.
\<close>

function canonicalizeJSON :: "('n \<Rightarrow> jsString) \<Rightarrow> 'n json \<Rightarrow> failure + jsString option" where
  "canonicalizeJSON numStr JNull = Inr (Some (ascii ''null''))"
| "canonicalizeJSON numStr JUndefined = Inr (Some (ascii ''undefined''))"
| "canonicalizeJSON numStr (JBool b) = Inr (Some (stringifyBool b))"
| "canonicalizeJSON numStr (JNum n) = Inr (Some (numStr n))"
| "canonicalizeJSON numStr (JStr s) = Inr (Some (stringifyString s))"
| "canonicalizeJSON numStr (JBigInt n) = Inl (TypeError ''Do not know how to serialize a BigInt'')"
| "canonicalizeJSON numStr JFunction = Inr None"
| "canonicalizeJSON numStr (JArr items) =
     (case collect (map (\<lambda>item. canonicalizeJSON numStr item) items) of
        Inl e \<Rightarrow> Inl e
      | Inr texts \<Rightarrow> Inr (Some (ascii ''['' @ join (ascii '','') (map joinText texts) @ ascii '']'')))"
| "canonicalizeJSON numStr (JObj kvs) =
     (case collect (map (\<lambda>key. canonicalizeJSON numStr (getProp kvs key))
                        (sort (map fst kvs))) of
        Inl e \<Rightarrow> Inl e
      | Inr values \<Rightarrow>
          Inr (Some (ascii ''{'' @
                     join (ascii '','')
                       (map2 (\<lambda>key value. ascii ''\"'' @ key @ ascii ''\":'' @ templateText value)
                             (sort (map fst kvs)) values) @
                     ascii ''}'')))"
  by pat_completeness auto
termination
  apply (relation "measure (\<lambda>(_, v). size v)")
    apply simp
   apply (simp add: less_Suc_eq_le size_list_estimation')
  apply (simp add: size_getProp)
  done

text \<open>
  The decimal rendering of an integer, which is what \<^verbatim>\<open>JSON.stringify\<close> gives for an
  integral number of absolute value up to \<open>2\<^sup>5\<^sup>3\<close> (beyond, it prints the shortest digits
  that read back as the same double). It instantiates \<open>numStr\<close> in the examples, on small
  numbers.
\<close>

fun showNat :: "nat \<Rightarrow> string" where
  "showNat n = (if n < 10 then [digitChar n] else showNat (n div 10) @ [digitChar (n mod 10)])"

declare showNat.simps [simp del]

definition showInt :: "int \<Rightarrow> jsString" where
  "showInt i = ascii (if i < 0 then ''-'' @ showNat (nat (- i)) else showNat (nat i))"

text \<open>
  \<open>keyPermuted v w\<close>: \<open>w\<close> is \<open>v\<close> with the keys of its objects, at any depth, listed
  in another order. The two objects have the same keys and, key by key, values related in
  the same way; arrays are related element by element, in order; everything else must be
  equal.
\<close>

lemma size_zip_left:
  "(x, y) \<in> set (zip xs ys) \<Longrightarrow> size x < Suc (size_list size xs)"
  by (metis less_Suc_eq_le set_zip_leftD size_list_estimation' order_refl)

function keyPermuted :: "'n json \<Rightarrow> 'n json \<Rightarrow> bool" where
  "keyPermuted (JArr xs) w =
     (case w of
        JArr ys \<Rightarrow> length xs = length ys \<and> (\<forall>(x, y) \<in> set (zip xs ys). keyPermuted x y)
      | _ \<Rightarrow> False)"
| "keyPermuted (JObj kvs) w =
     (case w of
        JObj kvs' \<Rightarrow>
          mset (map fst kvs') = mset (map fst kvs) \<and>
          (\<forall>key \<in> set (map fst kvs). keyPermuted (getProp kvs key) (getProp kvs' key))
      | _ \<Rightarrow> False)"
| "keyPermuted JNull w = (w = JNull)"
| "keyPermuted JUndefined w = (w = JUndefined)"
| "keyPermuted (JBool b) w = (w = JBool b)"
| "keyPermuted (JNum n) w = (w = JNum n)"
| "keyPermuted (JStr s) w = (w = JStr s)"
| "keyPermuted (JBigInt n) w = (w = JBigInt n)"
| "keyPermuted JFunction w = (w = JFunction)"
  by pat_completeness auto
termination
  by (relation "measure (\<lambda>(v, _). size v)") (auto simp: size_zip_left size_getProp)

text \<open>
  The values that \<open>canonicalizeJSON\<close> visits in a value, the value itself first, and
  the parts it serializes without an exception and without \<^verbatim>\<open>undefined\<close> as a result:
  all but a BigInt, a function and a symbol.
\<close>

function visited :: "'n json \<Rightarrow> 'n json list" where
  "visited (JArr items) = JArr items # concat (map (\<lambda>item. visited item) items)"
| "visited (JObj kvs) =
     JObj kvs # concat (map (\<lambda>key. visited (getProp kvs key)) (sort (map fst kvs)))"
| "visited JNull = [JNull]"
| "visited JUndefined = [JUndefined]"
| "visited (JBool b) = [JBool b]"
| "visited (JNum n) = [JNum n]"
| "visited (JStr s) = [JStr s]"
| "visited (JBigInt n) = [JBigInt n]"
| "visited JFunction = [JFunction]"
  by pat_completeness auto
termination
  apply (relation "measure size")
    apply simp
   apply (simp add: less_Suc_eq_le size_list_estimation')
  apply (simp add: size_getProp)
  done

definition plainPart :: "'n json \<Rightarrow> bool" where
  "plainPart p \<longleftrightarrow> (case p of JBigInt n \<Rightarrow> False | JFunction \<Rightarrow> False | _ \<Rightarrow> True)"

subsection \<open>The data model of \<^verbatim>\<open>src/app/types/document.ts\<close>\<close>

datatype documentContentType = Text | Json | Pdf

datatype documentStatus = Draft | Pending | Partial | Complete | Cancelled

text \<open>
  A \<^verbatim>\<open>Date\<close>. The code reads a date through \<^verbatim>\<open>toISOString()\<close> only, so a valid date is
  given by that string; on an invalid date (\<^verbatim>\<open>new Date(undefined)\<close> after a load of
  damaged storage) \<^verbatim>\<open>toISOString()\<close> throws a RangeError.
\<close>

datatype jsDate = ValidDate string | InvalidDate

fun toISOString :: "jsDate \<Rightarrow> failure + string" where
  "toISOString (ValidDate text) = Inr text"
| "toISOString InvalidDate = Inl RangeError"

text \<open>\<^verbatim>\<open>DocumentUser\<close>; \<^verbatim>\<open>email\<close> is optional.\<close>

record documentUser =
  userId :: string
  username :: string
  email :: "string option"
  walletAddress :: string

text \<open>
  \<^verbatim>\<open>DocumentSigner\<close>, an entry of \<^verbatim>\<open>requiredSigners\<close>. Its fields \<^verbatim>\<open>userId\<close>,
  \<^verbatim>\<open>username\<close> and \<^verbatim>\<open>walletAddress\<close> are \<open>signerId\<close>, \<open>signerName\<close> and
  \<open>signerWallet\<close> here, the names being taken by \<^typ>\<open>documentUser\<close>.
\<close>

record documentSigner =
  signerId :: string
  signerName :: string
  signerWallet :: "string option"
  required :: bool
  hasSigned :: bool

text \<open>\<^verbatim>\<open>DocumentSignature\<close>.\<close>

record documentSignature =
  signer :: documentUser
  signature :: string
  signedAt :: jsDate
  documentHash :: string
  verified :: bool
  verifiedAt :: "jsDate option"

text \<open>
  \<^verbatim>\<open>DocumentContent\<close> (\<open>ctype\<close> is its field \<^verbatim>\<open>type\<close>). The field \<^verbatim>\<open>data\<close> is typed
  \<^verbatim>\<open>string | object | PDFData\<close>: a JavaScript value, a string for a text document, the
  parsed value for a JSON document and, for a PDF document, the object built by
  \<open>pdfData\<close>.
\<close>

record 'n documentContent =
  ctype :: documentContentType
  data :: "'n json"
  hash :: string

definition pdfData :: "jsString \<Rightarrow> jsString \<Rightarrow> jsString \<Rightarrow> 'n \<Rightarrow> 'n json" where
  "pdfData base64 filename mimeType bytes =
     JObj [(ascii ''base64'', JStr base64), (ascii ''filename'', JStr filename),
           (ascii ''mimeType'', JStr mimeType), (ascii ''size'', JNum bytes)]"

text \<open>\<^verbatim>\<open>Document\<close> (\<open>docId\<close> is its field \<^verbatim>\<open>id\<close>).\<close>

record 'n document =
  docId :: string
  content :: "'n documentContent"
  createdBy :: documentUser
  createdAt :: jsDate
  status :: documentStatus
  requiredSigners :: "documentSigner list"
  signatures :: "documentSignature list"
  updatedAt :: jsDate

text \<open>\<^verbatim>\<open>SignatureStatus\<close>.\<close>

record signatureStatus =
  total :: nat
  signed :: nat
  percentage :: nat
  pending :: "string list"
  complete :: bool
  missingSigners :: "documentSigner list"

text \<open>\<^verbatim>\<open>SignatureVerification\<close> (\<open>errorText\<close> is its optional field \<^verbatim>\<open>error\<close>).\<close>

record signatureVerification =
  valid :: bool
  recoveredAddress :: string
  expectedAddress :: string
  addressMatch :: bool
  hashMatch :: bool
  errorText :: "string option"

text \<open>
  \<^verbatim>\<open>DocumentVerification\<close> (\<open>documentValid\<close> and \<open>checkedAt\<close> are its fields \<^verbatim>\<open>valid\<close>
  and \<^verbatim>\<open>verifiedAt\<close>).
\<close>

record documentVerification =
  documentValid :: bool
  signaturesValid :: bool
  contentHashValid :: bool
  allSignersPresent :: bool
  errors :: "string list"
  checkedAt :: jsDate

text \<open>
  The state of the provider that the modelled operations read and write: the documents,
  the signing flag and the last error.
\<close>

record 'n documentState =
  documents :: "'n document list"
  isSigning :: bool
  error :: "string option"

text \<open>
  What the provider takes from libraries: the rendering of a number by \<^verbatim>\<open>JSON.stringify\<close>,
  \<^verbatim>\<open>ethers.keccak256(ethers.toUtf8Bytes(s))\<close> on a string (\<^verbatim>\<open>toUtf8Bytes\<close> throws on a
  high surrogate that has no partner), \<^verbatim>\<open>ethers.hashMessage\<close>, \<^verbatim>\<open>ethers.recoverAddress\<close>
  (which throws on a malformed signature) and \<^verbatim>\<open>String.prototype.toLowerCase\<close>.
\<close>

record 'n platform =
  stringifyNumber :: "'n \<Rightarrow> jsString"
  keccak256 :: "jsString \<Rightarrow> failure + string"
  hashMessage :: "string \<Rightarrow> string"
  recoverAddress :: "string \<Rightarrow> string \<Rightarrow> failure + string"
  toLowerCase :: "string \<Rightarrow> string"

subsection \<open>Hashing and the message to sign\<close>

text \<open>
  \<^verbatim>\<open>hashDocumentContent\<close>. The canonical form is the data itself for a text, the
  result of \<^verbatim>\<open>canonicalizeJSON\<close> for a JSON document and the property \<^verbatim>\<open>base64\<close> for a
  PDF. \<^verbatim>\<open>ethers.toUtf8Bytes\<close> rejects a canonical form that is not a string, and reading
  the property \<^verbatim>\<open>base64\<close> of \<^verbatim>\<open>null\<close> or \<^verbatim>\<open>undefined\<close> throws a TypeError.
\<close>

definition hashDocumentContent :: "'n platform \<Rightarrow> 'n documentContent \<Rightarrow> failure + string" where
  "hashDocumentContent env c =
     (case ctype c of
        Text \<Rightarrow> (case data c of JStr s \<Rightarrow> keccak256 env s | _ \<Rightarrow> Inl InvalidArgument)
      | Json \<Rightarrow>
          (case canonicalizeJSON (stringifyNumber env) (data c) of
             Inl e \<Rightarrow> Inl e
           | Inr None \<Rightarrow> Inl InvalidArgument
           | Inr (Some canonicalForm) \<Rightarrow> keccak256 env canonicalForm)
      | Pdf \<Rightarrow>
          (case data c of
             JObj kvs \<Rightarrow>
               (case getProp kvs (ascii ''base64'') of
                  JStr b \<Rightarrow> keccak256 env b
                | _ \<Rightarrow> Inl InvalidArgument)
           | JNull \<Rightarrow> Inl (TypeError ''Cannot read properties of null'')
           | JUndefined \<Rightarrow> Inl (TypeError ''Cannot read properties of undefined'')
           | _ \<Rightarrow> Inl InvalidArgument))"

fun contentTypeName :: "documentContentType \<Rightarrow> string" where
  "contentTypeName Text = ''text''"
| "contentTypeName Json = ''json''"
| "contentTypeName Pdf = ''pdf''"

text \<open>\<^verbatim>\<open>createDocumentMessage\<close>: eleven lines joined by a line feed.\<close>

definition createDocumentMessage :: "'n document \<Rightarrow> failure + string" where
  "createDocumentMessage doc =
     (case toISOString (createdAt doc) of
        Inl e \<Rightarrow> Inl e
      | Inr created \<Rightarrow>
          Inr (join [CHR 0x0A]
            [''=== VIA DOCUMENT SIGNATURE ==='',
             [],
             ''Document ID: '' @ docId doc,
             ''Content Type: '' @ contentTypeName (ctype (content doc)),
             ''Content Hash: '' @ hash (content doc),
             ''Created: '' @ created,
             ''Required Signers: '' @ join '', '' (map signerId (requiredSigners doc)),
             [],
             ''By signing this message, I confirm that I have reviewed and approve this document.'',
             [],
             ''=== END SIGNATURE ==='']))"

subsection \<open>Signing\<close>

text \<open>\<^verbatim>\<open>getDocument\<close>: the first document with the identifier.\<close>

definition getDocument :: "'n documentState \<Rightarrow> string \<Rightarrow> 'n document option" where
  "getDocument st i = find (\<lambda>doc. docId doc = i) (documents st)"

text \<open>
  The function that \<^verbatim>\<open>signDocument\<close> and \<^verbatim>\<open>signDocumentDirect\<close> hand to
  \<^verbatim>\<open>setDocuments\<close> for the document signed (the same text in both): append the
  signature, set \<^verbatim>\<open>hasSigned\<close> on the entries that match the signer, recompute the
  status, stamp \<^verbatim>\<open>updatedAt\<close>.
\<close>

definition hasSignedNow :: "documentUser \<Rightarrow> documentSigner \<Rightarrow> bool" where
  "hasSignedNow currentUser s \<longleftrightarrow>
     signerId s = userId currentUser \<or>
     Some (signerId s) = email currentUser \<or>
     Some (signerName s) = email currentUser"

definition recordSignature ::
  "documentUser \<Rightarrow> documentSignature \<Rightarrow> jsDate \<Rightarrow> 'n document \<Rightarrow> 'n document" where
  "recordSignature currentUser docSignature now d =
     (let newSignatures = signatures d @ [docSignature];
          newRequiredSigners =
            map (\<lambda>s. if hasSignedNow currentUser s then s\<lparr>hasSigned := True\<rparr> else s)
                (requiredSigners d);
          allSigned = list_all hasSigned newRequiredSigners;
          newStatus =
            (if allSigned then Complete
             else if length newSignatures > 0 then Partial
             else status d)
      in d\<lparr>signatures := newSignatures,
           requiredSigners := newRequiredSigners,
           status := newStatus,
           updatedAt := now\<rparr>)"

text \<open>
  The part of both functions inside \<^verbatim>\<open>try\<close>: raise the signing flag and clear the error,
  build the message, ask the wallet (\<open>signMessage\<close> returns a signature or \<^verbatim>\<open>null\<close>;
  \<^verbatim>\<open>!signature\<close> holds of \<^verbatim>\<open>null\<close> and of the empty string), record the signature in
  every document with the identifier. An error is stored in \<^verbatim>\<open>error\<close> and thrown again;
  the signing flag is lowered in either case. \<open>signedNow\<close> and \<open>updatedNow\<close> are the two
  readings of the clock.
\<close>

definition signAndRecord ::
  "(string \<Rightarrow> string option) \<Rightarrow> jsDate \<Rightarrow> jsDate \<Rightarrow> documentUser \<Rightarrow> 'n document \<Rightarrow>
   'n documentState \<Rightarrow> failure option \<times> 'n documentState" where
  "signAndRecord signMessage signedNow updatedNow currentUser doc st =
     (let st1 = st\<lparr>isSigning := True, error := None\<rparr>;
          thrown = (\<lambda>e. (Some e, st1\<lparr>error := Some (errorMessage e), isSigning := False\<rparr>))
      in case createDocumentMessage doc of
           Inl e \<Rightarrow> thrown e
         | Inr message \<Rightarrow>
             (case signMessage message of
                None \<Rightarrow> thrown SigningFailed
              | Some sg \<Rightarrow>
                  if sg = [] then thrown SigningFailed
                  else
                    let docSignature =
                          \<lparr>signer = currentUser, signature = sg, signedAt = signedNow,
                           documentHash = hash (content doc), verified = False,
                           verifiedAt = None\<rparr>
                    in (None,
                        st1\<lparr>documents :=
                              map (\<lambda>d. if docId d \<noteq> docId doc then d
                                        else recordSignature currentUser docSignature updatedNow d)
                                  (documents st1),
                            isSigning := False\<rparr>)))"

text \<open>
  \<^verbatim>\<open>signDocument(documentId)\<close>. \<open>currentUser\<close> is the result of \<^verbatim>\<open>getCurrentUser()\<close>.
  The function is created by a render of the provider and reads the document through the
  \<^verbatim>\<open>getDocument\<close> of that render, that is, from the documents as that render saw them
  (\<open>rendered\<close>). Its updates are handed to the state setters and apply to the state at
  that moment (\<open>st\<close>); after the wallet has answered, \<^verbatim>\<open>setDocuments(prev => ...)\<close>
  appends to the latest documents without a second look at their signatures. The four
  checks before \<^verbatim>\<open>try\<close> throw without touching the state.
\<close>

definition signDocumentOn ::
  "'n documentState \<Rightarrow> documentUser option \<Rightarrow> (string \<Rightarrow> string option) \<Rightarrow> jsDate \<Rightarrow> jsDate \<Rightarrow>
   string \<Rightarrow> 'n documentState \<Rightarrow> failure option \<times> 'n documentState" where
  "signDocumentOn rendered currentUser signMessage signedNow updatedNow documentId st =
     (case currentUser of
        None \<Rightarrow> (Some NotAuthenticated, st)
      | Some u \<Rightarrow>
          (case getDocument rendered documentId of
             None \<Rightarrow> (Some DocumentNotFound, st)
           | Some doc \<Rightarrow>
               if list_ex (\<lambda>sig. userId (signer sig) = userId u) (signatures doc)
               then (Some AlreadySigned, st)
               else if \<not> list_ex (\<lambda>s. signerId s = userId u \<or> Some (signerName s) = email u)
                                  (requiredSigners doc)
               then (Some NotARequiredSigner, st)
               else signAndRecord signMessage signedNow updatedNow u doc st))"

text \<open>
  The call made from a render that shows the current state: what happens when nothing
  else has changed the documents since the last render.
\<close>

definition signDocument ::
  "documentUser option \<Rightarrow> (string \<Rightarrow> string option) \<Rightarrow> jsDate \<Rightarrow> jsDate \<Rightarrow> string \<Rightarrow>
   'n documentState \<Rightarrow> failure option \<times> 'n documentState" where
  "signDocument currentUser signMessage signedNow updatedNow documentId st =
     signDocumentOn st currentUser signMessage signedNow updatedNow documentId st"

text \<open>
  \<^verbatim>\<open>signDocumentDirect(doc)\<close>, which \<^verbatim>\<open>createDocument\<close> calls to sign at once for the
  creator.
\<close>

definition signDocumentDirect ::
  "documentUser option \<Rightarrow> (string \<Rightarrow> string option) \<Rightarrow> jsDate \<Rightarrow> jsDate \<Rightarrow> 'n document \<Rightarrow>
   'n documentState \<Rightarrow> failure option \<times> 'n documentState" where
  "signDocumentDirect currentUser signMessage signedNow updatedNow doc st =
     (case currentUser of
        None \<Rightarrow> (Some NotAuthenticated, st)
      | Some u \<Rightarrow>
          if list_ex (\<lambda>sig. userId (signer sig) = userId u) (signatures doc)
          then (Some AlreadySigned, st)
          else if \<not> list_ex (\<lambda>s. signerId s = userId u) (requiredSigners doc)
          then (Some NotARequiredSigner, st)
          else signAndRecord signMessage signedNow updatedNow u doc st)"

subsection \<open>Signature status\<close>

text \<open>
  \<^verbatim>\<open>getSignatureStatus\<close>. \<open>roundPercent signed total\<close> stands for
  \<^verbatim>\<open>Math.round((signed / total) * 100)\<close>, which the code computes in floating point.
\<close>

definition getSignatureStatus ::
  "(nat \<Rightarrow> nat \<Rightarrow> nat) \<Rightarrow> 'n documentState \<Rightarrow> string \<Rightarrow> signatureStatus option" where
  "getSignatureStatus roundPercent st documentId =
     (case getDocument st documentId of
        None \<Rightarrow> None
      | Some doc \<Rightarrow>
          let total = length (requiredSigners doc);
              signed = length (signatures doc)
          in Some \<lparr>total = total,
                   signed = signed,
                   percentage = (if total > 0 then roundPercent signed total else 0),
                   pending = map signerId (filter (\<lambda>s. \<not> hasSigned s) (requiredSigners doc)),
                   complete = (signed = total),
                   missingSigners = filter (\<lambda>s. \<not> hasSigned s) (requiredSigners doc)\<rparr>)"

text \<open>
  The rounding of the exact quotient, half up. The code rounds a floating-point product,
  which can differ (23 of 40 gives 57, not 58), so this is not \<open>roundPercent\<close>; it only
  fills the parameter in examples without required signers, where it is not called.
\<close>

definition roundPercentExact :: "nat \<Rightarrow> nat \<Rightarrow> nat" where
  "roundPercentExact k n = (200 * k + n) div (2 * n)"

subsection \<open>Verification\<close>

text \<open>\<^verbatim>\<open>verifySignature\<close>; every exception ends in the result of the \<^verbatim>\<open>catch\<close> branch.\<close>

definition verifySignature ::
  "'n platform \<Rightarrow> documentSignature \<Rightarrow> 'n document \<Rightarrow> signatureVerification" where
  "verifySignature env sig doc =
     (let caught = (\<lambda>e. \<lparr>valid = False, recoveredAddress = [],
                          expectedAddress = walletAddress (signer sig),
                          addressMatch = False, hashMatch = False,
                          errorText = Some (errorMessage e)\<rparr>)
      in case createDocumentMessage doc of
           Inl e \<Rightarrow> caught e
         | Inr message \<Rightarrow>
             (case recoverAddress env (hashMessage env message) (signature sig) of
                Inl e \<Rightarrow> caught e
              | Inr recovered \<Rightarrow>
                  let addrMatch =
                        (toLowerCase env recovered = toLowerCase env (walletAddress (signer sig)));
                      hMatch = (documentHash sig = hash (content doc))
                  in \<lparr>valid = addrMatch \<and> hMatch,
                      recoveredAddress = recovered,
                      expectedAddress = walletAddress (signer sig),
                      addressMatch = addrMatch,
                      hashMatch = hMatch,
                      errorText = None\<rparr>))"

text \<open>
  The loop of \<^verbatim>\<open>verifyDocument\<close> over the signatures, with its two variables
  \<^verbatim>\<open>signaturesValid\<close> and \<^verbatim>\<open>errors\<close>. \<^verbatim>\<open>verification.error || '...'\<close> takes the default
  for a missing and for an empty message.
\<close>

fun verifyEach ::
  "'n platform \<Rightarrow> 'n document \<Rightarrow> documentSignature list \<Rightarrow> bool \<times> string list \<Rightarrow>
   bool \<times> string list" where
  "verifyEach env doc [] acc = acc"
| "verifyEach env doc (sig # sigs) (sigsValid, errs) =
     (let verification = verifySignature env sig doc
      in if \<not> valid verification
         then verifyEach env doc sigs
                (False,
                 errs @ [''Invalid signature from '' @ username (signer sig) @ '': '' @
                         (case errorText verification of
                            None \<Rightarrow> ''Signature verification failed''
                          | Some m \<Rightarrow> if m = [] then ''Signature verification failed'' else m)])
         else verifyEach env doc sigs (sigsValid, errs))"

text \<open>
  \<^verbatim>\<open>verifyDocument\<close>. An unknown document and a failure of \<^verbatim>\<open>hashDocumentContent\<close> are
  thrown to the caller.
\<close>

definition verifyDocument ::
  "'n platform \<Rightarrow> jsDate \<Rightarrow> 'n documentState \<Rightarrow> string \<Rightarrow> failure + documentVerification" where
  "verifyDocument env now st documentId =
     (case getDocument st documentId of
        None \<Rightarrow> Inl DocumentNotFound
      | Some doc \<Rightarrow>
          (case hashDocumentContent env (content doc) of
             Inl e \<Rightarrow> Inl e
           | Inr freshHash \<Rightarrow>
               let hashValid = (freshHash = hash (content doc));
                   (sigsValid, errs) = verifyEach env doc (signatures doc) (True, []);
                   allPresent =
                     list_all (\<lambda>s. list_ex (\<lambda>sig. userId (signer sig) = signerId s \<or>
                                                  email (signer sig) = Some (signerId s) \<or>
                                                  userId (signer sig) = signerName s)
                                           (signatures doc))
                              (requiredSigners doc);
                   errs' = (if \<not> allPresent
                            then errs @ [''Not all required signers have signed'']
                            else errs)
               in Inr \<lparr>documentValid = sigsValid \<and> hashValid \<and> allPresent,
                       signaturesValid = sigsValid,
                       contentHashValid = hashValid,
                       allSignersPresent = allPresent,
                       errors = errs',
                       checkedAt = now\<rparr>))"

subsection \<open>The specification's identity-match policy\<close>

text \<open>
  The next definitions follow the words of the specification, not the code. They state
  the policy of its section 4.4 (equal subject id, or equal email compared
  case-insensitively, or stored identifier equal to the display name) and the status rule of
  its section 4.5, to be compared with what the code computes. Case is folded on the letters
  \<open>A\<close> to \<open>Z\<close>.
\<close>

definition spec_lowerChar :: "char \<Rightarrow> char" where
  "spec_lowerChar c =
     (case map_of (zip ''ABCDEFGHIJKLMNOPQRSTUVWXYZ'' ''abcdefghijklmnopqrstuvwxyz'') c of
        None \<Rightarrow> c
      | Some l \<Rightarrow> l)"

definition spec_lower :: "string \<Rightarrow> string" where
  "spec_lower s = map spec_lowerChar s"

definition spec_identityMatch :: "documentSigner \<Rightarrow> documentUser \<Rightarrow> bool" where
  "spec_identityMatch s u \<longleftrightarrow>
     signerId s = userId u \<or>
     (case email u of None \<Rightarrow> False | Some e \<Rightarrow> spec_lower (signerId s) = spec_lower e) \<or>
     signerId s = username u"

text \<open>
  The email disjunct alone, over both strings the code stores in an entry.
\<close>

definition spec_emailMatch :: "documentSigner \<Rightarrow> documentUser \<Rightarrow> bool" where
  "spec_emailMatch s u \<longleftrightarrow>
     (case email u of
        None \<Rightarrow> False
      | Some e \<Rightarrow> spec_lower (signerId s) = spec_lower e \<or> spec_lower (signerName s) = spec_lower e)"

text \<open>
  The same policy between the signer recorded in a signature and the caller, field by
  field.
\<close>

definition spec_sameIdentity :: "documentUser \<Rightarrow> documentUser \<Rightarrow> bool" where
  "spec_sameIdentity a u \<longleftrightarrow>
     userId a = userId u \<or>
     (case (email a, email u) of
        (Some e, Some e') \<Rightarrow> spec_lower e = spec_lower e'
      | _ \<Rightarrow> False) \<or>
     username a = username u"

definition spec_status :: "'n document \<Rightarrow> documentStatus" where
  "spec_status d =
     (if list_all (\<lambda>s. list_ex (\<lambda>sig. spec_identityMatch s (signer sig)) (signatures d))
                  (requiredSigners d)
      then Complete
      else if signatures d \<noteq> [] then Partial
      else Pending)"

text \<open>
  The code points of a string, a surrogate pair counting for the one code point it
  encodes: the order of these lists is the code-point order in which the specification
  wants the keys of an object.
\<close>

fun spec_codePoints :: "jsString \<Rightarrow> nat list" where
  "spec_codePoints [] = []"
| "spec_codePoints (c # cs) =
     (if isHighSurrogate c \<and> cs \<noteq> [] \<and> isLowSurrogate (hd cs)
      then (0x10000 + (c - 0xD800) * 0x400 + (hd cs - 0xDC00)) # spec_codePoints (tl cs)
      else c # spec_codePoints cs)"

subsection \<open>Example data\<close>

text \<open>
  The scenarios of the specification: a text document \<open>hello\<close> that Alice creates for
  herself and Bob. \<open>newSigner\<close> is the entry \<^verbatim>\<open>createDocument\<close> builds from an identifier.
\<close>

definition newSigner :: "string \<Rightarrow> documentSigner" where
  "newSigner i =
     \<lparr>signerId = i, signerName = i, signerWallet = None, required = True, hasSigned = False\<rparr>"

definition alice :: documentUser where
  "alice = \<lparr>userId = ''kc-alice'', username = ''alice'',
            email = Some ''alice@example.com'', walletAddress = ''0xA11CE''\<rparr>"

definition bob :: documentUser where
  "bob = \<lparr>userId = ''kc-bob'', username = ''bob'',
          email = Some ''bob@example.com'', walletAddress = ''0xB0B''\<rparr>"

definition mallory :: documentUser where
  "mallory = \<lparr>userId = ''kc-mallory'', username = ''mallory'',
              email = Some ''mallory@example.com'', walletAddress = ''0xBAD''\<rparr>"

text \<open>A second account, registered with Alice's email address in another case.\<close>

definition alice2 :: documentUser where
  "alice2 = \<lparr>userId = ''kc-alice2'', username = ''alice.second'',
             email = Some ''Alice@Example.com'', walletAddress = ''0xA22CE''\<rparr>"

definition noon :: jsDate where
  "noon = ValidDate ''2026-01-06T12:00:00.000Z''"

definition later :: jsDate where
  "later = ValidDate ''2026-01-06T12:05:00.000Z''"

definition helloDoc :: "documentSigner list \<Rightarrow> documentSignature list \<Rightarrow> int document" where
  "helloDoc signers sigs =
     \<lparr>docId = ''doc_1'',
      content = \<lparr>ctype = Text, data = JStr (ascii ''hello''), hash = ''0x1c8a''\<rparr>,
      createdBy = alice, createdAt = noon, status = Pending,
      requiredSigners = signers, signatures = sigs, updatedAt = noon\<rparr>"

definition signatureOf :: "documentUser \<Rightarrow> documentSignature" where
  "signatureOf u =
     \<lparr>signer = u, signature = ''0x5161'', signedAt = later, documentHash = ''0x1c8a'',
      verified = False, verifiedAt = None\<rparr>"

definition stateOf :: "int document \<Rightarrow> int documentState" where
  "stateOf d = \<lparr>documents = [d], isSigning = False, error = None\<rparr>"

text \<open>A wallet that signs every message, and one that returns \<^verbatim>\<open>null\<close>.\<close>

definition walletSigns :: "string \<Rightarrow> string option" where
  "walletSigns message = Some ''0x5161''"

definition walletRefuses :: "string \<Rightarrow> string option" where
  "walletRefuses message = None"

section \<open>Properties\<close>

subsection \<open>Auxiliary facts\<close>

lemma map_pairwise:
  "length xs = length ys \<Longrightarrow> (\<forall>(x, y) \<in> set (zip xs ys). f y = f x) \<Longrightarrow> map f ys = map f xs"
  by (induction xs ys rule: list_induct2) auto

lemma canonicalizeJSON_keyPermuted:
  "keyPermuted v w \<Longrightarrow> canonicalizeJSON numStr w = canonicalizeJSON numStr v"
proof (induction v w rule: keyPermuted.induct)
  case (1 xs w)
  then obtain ys where w: "w = JArr ys" and len: "length xs = length ys"
    and rel: "\<forall>(x, y) \<in> set (zip xs ys). keyPermuted x y"
    by (auto split: json.splits)
  have "\<forall>(x, y) \<in> set (zip xs ys). canonicalizeJSON numStr y = canonicalizeJSON numStr x"
    using "1.IH" w rel by auto
  then have "map (canonicalizeJSON numStr) ys = map (canonicalizeJSON numStr) xs"
    using len by (rule map_pairwise[rotated])
  then show ?case using w by simp
next
  case (2 kvs w)
  then obtain kvs' where w: "w = JObj kvs'"
    and keys: "mset (map fst kvs') = mset (map fst kvs)"
    and rel: "\<forall>key \<in> set (map fst kvs). keyPermuted (getProp kvs key) (getProp kvs' key)"
    by (auto split: json.splits)
  have sorted_eq: "sort (map fst kvs') = sort (map fst kvs)"
    using keys by (simp add: properties_for_sort)
  have "\<forall>key \<in> set (map fst kvs).
          canonicalizeJSON numStr (getProp kvs' key) = canonicalizeJSON numStr (getProp kvs key)"
    using "2.IH" w rel by auto
  then have maps:
    "map (\<lambda>key. canonicalizeJSON numStr (getProp kvs' key)) (sort (map fst kvs)) =
     map (\<lambda>key. canonicalizeJSON numStr (getProp kvs key)) (sort (map fst kvs))"
    by (intro map_cong) auto
  show ?case unfolding w canonicalizeJSON.simps sorted_eq maps ..
qed auto

text \<open>
  The relation holds between a value and itself, and between an object and any
  reordering of its members: it covers every permutation of keys.
\<close>

lemma keyPermuted_refl: "keyPermuted v v"
proof (induction v)
  case (JArr xs)
  then show ?case by (auto simp: zip_same)
next
  case (JObj kvs)
  have "keyPermuted (getProp kvs key) (getProp kvs key)" if "key \<in> fst ` set kvs" for key
  proof -
    from that obtain v where "map_of kvs key = Some v"
      by (metis domD dom_map_of_conv_image_fst)
    moreover from this have "(key, v) \<in> set kvs" by (rule map_of_SomeD)
    ultimately show ?thesis using JObj.IH[of "(key, v)" v] by (simp add: getProp_def)
  qed
  then show ?case by simp
qed simp_all

lemma reordered_object_keyPermuted:
  assumes "distinct (map fst kvs)" and "mset kvs' = mset kvs"
  shows "keyPermuted (JObj kvs) (JObj kvs')"
proof -
  have keys: "mset (map fst kvs') = mset (map fst kvs)"
    using assms(2) by (metis mset_map)
  then have "distinct (map fst kvs')"
    using assms(1) by (metis mset_eq_imp_distinct_iff)
  moreover have "set kvs' = set kvs"
    using assms(2) by (rule mset_eq_setD)
  ultimately have "map_of kvs' = map_of kvs"
    using assms(1) by (simp add: map_of_inject_set)
  then have "getProp kvs' key = getProp kvs key" for key
    by (simp add: getProp_def)
  then show ?thesis using keys by (simp add: keyPermuted_refl)
qed

text \<open>The shape of the canonical form of an array and of an object.\<close>

lemma collect_strings:
  "list_all2 (\<lambda>r s. r = Inr (Some s)) rs ss \<Longrightarrow> collect rs = Inr (map Some ss)"
  by (induction rs ss rule: list_all2_induct) simp_all

lemma canonicalizeJSON_array:
  assumes "list_all2 (\<lambda>x s. canonicalizeJSON numStr x = Inr (Some s)) xs ss"
  shows "canonicalizeJSON numStr (JArr xs) =
           Inr (Some (ascii ''['' @ join (ascii '','') ss @ ascii '']''))"
proof -
  have "list_all2 (\<lambda>r s. r = Inr (Some s)) (map (canonicalizeJSON numStr) xs) ss"
    using assms by (simp add: list_all2_map1)
  then have "collect (map (canonicalizeJSON numStr) xs) = Inr (map Some ss)"
    by (rule collect_strings)
  then show ?thesis by (simp add: comp_def)
qed

lemma canonicalizeJSON_object:
  assumes sorted: "sorted (map fst members)"
    and dist: "distinct (map fst kvs)"
    and perm: "mset members = mset kvs"
    and texts: "list_all2 (\<lambda>(key, x) s. canonicalizeJSON numStr x = Inr (Some s)) members ss"
  shows "canonicalizeJSON numStr (JObj kvs) =
           Inr (Some (ascii ''{'' @
                      join (ascii '','')
                        (map2 (\<lambda>(key, x) s. ascii ''\"'' @ key @ ascii ''\":'' @ s) members ss) @
                      ascii ''}''))"
proof -
  have "mset (map fst members) = mset (map fst kvs)"
    using perm by (metis mset_map)
  then have keys: "sort (map fst kvs) = map fst members"
    using sorted by (simp add: properties_for_sort)
  have "set members = set kvs" using perm by (rule mset_eq_setD)
  then have get: "getProp kvs key = x" if "(key, x) \<in> set members" for key x
    using that dist by (simp add: getProp_def)
  have "list_all2 (\<lambda>m s. canonicalizeJSON numStr (getProp kvs (fst m)) = Inr (Some s)) members ss"
    using texts by (rule list.rel_mono_strong) (auto simp: get)
  then have "list_all2 (\<lambda>r s. r = Inr (Some s))
          (map (\<lambda>key. canonicalizeJSON numStr (getProp kvs key)) (map fst members)) ss"
    by (simp add: list_all2_map1)
  then have col: "collect (map (\<lambda>key. canonicalizeJSON numStr (getProp kvs key))
                     (map fst members)) = Inr (map Some ss)"
    by (rule collect_strings)
  have len: "length members = length ss"
    using texts by (rule list_all2_lengthD)
  have "map2 (\<lambda>key value. ascii ''\"'' @ key @ ascii ''\":'' @ templateText value)
          (map fst members) (map Some ss) =
        map2 (\<lambda>(key, x) s. ascii ''\"'' @ key @ ascii ''\":'' @ s) members ss"
    using len by (induction members ss rule: list_induct2) auto
  then show ?thesis using keys col by simp
qed

text \<open>Exceptions and the token for \<^verbatim>\<open>undefined\<close>.\<close>

lemma join_contains:
  "x \<in> set xs \<Longrightarrow> \<exists>pre post. join sep xs = pre @ x @ post"
proof (induction sep xs rule: join.induct)
  case (1 sep)
  then show ?case by simp
next
  case (2 sep y)
  then have "join sep [y] = [] @ x @ []" by simp
  then show ?case by blast
next
  case (3 sep y z zs)
  show ?case
  proof (cases "x = y")
    case True
    then have "join sep (y # z # zs) = [] @ x @ (sep @ join sep (z # zs))" by simp
    then show ?thesis by blast
  next
    case False
    with 3 obtain pre post where "join sep (z # zs) = pre @ x @ post" by auto
    then have "join sep (y # z # zs) = (y @ sep @ pre) @ x @ post" by simp
    then show ?thesis by blast
  qed
qed

lemma collect_Inl: "collect rs = Inl e \<Longrightarrow> Inl e \<in> set rs"
  by (induction rs rule: collect.induct) (auto split: sum.splits)

lemma collect_failure: "Inl e \<in> set rs \<Longrightarrow> \<exists>e'. collect rs = Inl e'"
  by (induction rs rule: collect.induct) (auto split: sum.splits)

lemma collect_all_strings:
  "(\<forall>x \<in> set xs. \<exists>s. g x = Inr (Some s)) \<Longrightarrow>
     \<exists>ss. list_all2 (\<lambda>x s. g x = Inr (Some s)) xs ss"
proof (induction xs)
  case Nil
  then show ?case by simp
next
  case (Cons x xs)
  then obtain s ss where "g x = Inr (Some s)" "list_all2 (\<lambda>x s. g x = Inr (Some s)) xs ss"
    by auto
  then have "list_all2 (\<lambda>x s. g x = Inr (Some s)) (x # xs) (s # ss)" by simp
  then show ?case by blast
qed

lemma canonicalizeJSON_failure:
  "canonicalizeJSON numStr v = Inl e \<Longrightarrow> e = TypeError ''Do not know how to serialize a BigInt''"
proof (induction numStr v rule: canonicalizeJSON.induct)
  case (8 numStr items)
  from "8.prems" have "collect (map (canonicalizeJSON numStr) items) = Inl e"
    by (simp split: sum.splits)
  then have "Inl e \<in> set (map (canonicalizeJSON numStr) items)" by (rule collect_Inl)
  then obtain item where "item \<in> set items" "canonicalizeJSON numStr item = Inl e"
    by force
  then show ?case by (rule "8.IH")
next
  case (9 numStr kvs)
  from "9.prems"
  have "collect (map (\<lambda>key. canonicalizeJSON numStr (getProp kvs key)) (sort (map fst kvs))) = Inl e"
    by (simp split: sum.splits)
  then have "Inl e \<in> set (map (\<lambda>key. canonicalizeJSON numStr (getProp kvs key))
                              (sort (map fst kvs)))"
    by (rule collect_Inl)
  then obtain key where "key \<in> set (sort (map fst kvs))"
    "canonicalizeJSON numStr (getProp kvs key) = Inl e"
    by force
  then show ?case by (rule "9.IH")
qed simp_all

lemma canonicalizeJSON_bigint:
  "\<exists>n. JBigInt n \<in> set (visited v) \<Longrightarrow>
     canonicalizeJSON numStr v = Inl (TypeError ''Do not know how to serialize a BigInt'')"
proof (induction numStr v rule: canonicalizeJSON.induct)
  case (8 numStr items)
  then obtain item where item: "item \<in> set items" "\<exists>n. JBigInt n \<in> set (visited item)"
    by auto
  with "8.IH" have "canonicalizeJSON numStr item =
      Inl (TypeError ''Do not know how to serialize a BigInt'')" by blast
  with item(1) have "Inl (TypeError ''Do not know how to serialize a BigInt'')
      \<in> set (map (canonicalizeJSON numStr) items)" by force
  then obtain e' where "collect (map (canonicalizeJSON numStr) items) = Inl e'"
    using collect_failure by blast
  then have "canonicalizeJSON numStr (JArr items) = Inl e'" by simp
  then show ?case using canonicalizeJSON_failure by blast
next
  case (9 numStr kvs)
  then obtain key where key: "key \<in> set (sort (map fst kvs))"
    "\<exists>n. JBigInt n \<in> set (visited (getProp kvs key))"
    by auto
  with "9.IH" have "canonicalizeJSON numStr (getProp kvs key) =
      Inl (TypeError ''Do not know how to serialize a BigInt'')" by blast
  with key(1) have "Inl (TypeError ''Do not know how to serialize a BigInt'')
      \<in> set (map (\<lambda>key. canonicalizeJSON numStr (getProp kvs key)) (sort (map fst kvs)))"
    by force
  then obtain e' where
    "collect (map (\<lambda>key. canonicalizeJSON numStr (getProp kvs key)) (sort (map fst kvs))) = Inl e'"
    using collect_failure by blast
  then have "canonicalizeJSON numStr (JObj kvs) = Inl e'" by simp
  then show ?case using canonicalizeJSON_failure by blast
qed simp_all

lemma canonicalizeJSON_undefined:
  "\<forall>p \<in> set (visited v). plainPart p \<Longrightarrow>
     \<exists>s. canonicalizeJSON numStr v = Inr (Some s) \<and>
         (JUndefined \<in> set (visited v) \<longrightarrow> (\<exists>pre post. s = pre @ ascii ''undefined'' @ post))"
proof (induction numStr v rule: canonicalizeJSON.induct)
  case (2 numStr)
  have "ascii ''undefined'' = [] @ ascii ''undefined'' @ []" by simp
  then show ?case by (metis canonicalizeJSON.simps(2))
next
  case (8 numStr items)
  have each: "\<exists>s. canonicalizeJSON numStr item = Inr (Some s) \<and>
                (JUndefined \<in> set (visited item) \<longrightarrow>
                   (\<exists>pre post. s = pre @ ascii ''undefined'' @ post))"
    if "item \<in> set items" for item
    using that "8.IH"[of item] "8.prems" by auto
  then obtain ss where ss: "list_all2 (\<lambda>x s. canonicalizeJSON numStr x = Inr (Some s)) items ss"
    using collect_all_strings[of items "canonicalizeJSON numStr"] by blast
  then have out: "canonicalizeJSON numStr (JArr items) =
                    Inr (Some (ascii ''['' @ join (ascii '','') ss @ ascii '']''))"
    by (rule canonicalizeJSON_array)
  have "\<exists>pre post. ascii ''['' @ join (ascii '','') ss @ ascii '']'' =
                     pre @ ascii ''undefined'' @ post"
    if "JUndefined \<in> set (visited (JArr items))"
  proof -
    from that obtain item where item: "item \<in> set items" "JUndefined \<in> set (visited item)"
      by auto
    from item(1) obtain i where i: "i < length items" "items ! i = item"
      by (auto simp: in_set_conv_nth)
    with ss have "canonicalizeJSON numStr item = Inr (Some (ss ! i))" "ss ! i \<in> set ss"
      by (auto simp: list_all2_conv_all_nth)
    then obtain s where s: "s \<in> set ss" "canonicalizeJSON numStr item = Inr (Some s)"
      by blast
    with each[OF item(1)] item(2) obtain p q where pq: "s = p @ ascii ''undefined'' @ q" by auto
    from join_contains[OF s(1)] obtain pre post where "join (ascii '','') ss = pre @ s @ post"
      by blast
    with pq have "ascii ''['' @ join (ascii '','') ss @ ascii '']'' =
        (ascii ''['' @ pre @ p) @ ascii ''undefined'' @ (q @ post @ ascii '']'')" by simp
    then show ?thesis by blast
  qed
  with out show ?case by blast
next
  case (9 numStr kvs)
  let ?keys = "sort (map fst kvs)"
  let ?g = "\<lambda>key. canonicalizeJSON numStr (getProp kvs key)"
  let ?f = "\<lambda>key value. ascii ''\"'' @ key @ ascii ''\":'' @ templateText value"
  have each: "\<exists>s. ?g key = Inr (Some s) \<and>
                (JUndefined \<in> set (visited (getProp kvs key)) \<longrightarrow>
                   (\<exists>pre post. s = pre @ ascii ''undefined'' @ post))"
    if "key \<in> set ?keys" for key
    using that "9.IH"[of key] "9.prems" by auto
  then obtain ss where ss: "list_all2 (\<lambda>key s. ?g key = Inr (Some s)) ?keys ss"
    using collect_all_strings[of ?keys ?g] by blast
  then have "list_all2 (\<lambda>r s. r = Inr (Some s)) (map ?g ?keys) ss"
    by (simp add: list_all2_map1)
  then have col: "collect (map ?g ?keys) = Inr (map Some ss)" by (rule collect_strings)
  let ?out = "ascii ''{'' @ join (ascii '','') (map2 ?f ?keys (map Some ss)) @ ascii ''}''"
  have out: "canonicalizeJSON numStr (JObj kvs) = Inr (Some ?out)"
    using col by simp
  have len: "length ?keys = length ss" using ss by (rule list_all2_lengthD)
  have "\<exists>pre post. ?out = pre @ ascii ''undefined'' @ post"
    if "JUndefined \<in> set (visited (JObj kvs))"
  proof -
    from that obtain key where key: "key \<in> set ?keys"
      "JUndefined \<in> set (visited (getProp kvs key))"
      by auto
    from key(1) obtain i where i: "i < length ?keys" "?keys ! i = key"
      by (metis in_set_conv_nth)
    with ss have s: "?g key = Inr (Some (ss ! i))"
      by (auto simp: list_all2_conv_all_nth)
    with each[OF key(1)] key(2) obtain p q where pq: "ss ! i = p @ ascii ''undefined'' @ q"
      by auto
    have "?f key (Some (ss ! i)) \<in> set (map2 ?f ?keys (map Some ss))"
      using i len by (force simp: in_set_conv_nth)
    from join_contains[OF this] obtain pre post where
      "join (ascii '','') (map2 ?f ?keys (map Some ss)) = pre @ ?f key (Some (ss ! i)) @ post"
      by blast
    with pq have "?out = (ascii ''{'' @ pre @ ascii ''\"'' @ key @ ascii ''\":'' @ p) @
        ascii ''undefined'' @ (q @ post @ ascii ''}'')" by simp
    then show ?thesis by blast
  qed
  with out show ?case by blast
qed (simp_all add: plainPart_def)

lemma find_map_docId:
  assumes "\<And>d. docId (f d) = docId d"
  shows "find (\<lambda>d. docId d = i) (map (\<lambda>d. if docId d \<noteq> i then d else f d) ds) =
         map_option f (find (\<lambda>d. docId d = i) ds)"
  by (induction ds) (auto simp: assms)

lemma docId_recordSignature: "docId (recordSignature u sg t d) = docId d"
  by (simp add: recordSignature_def Let_def)

lemma signatures_recordSignature:
  "signatures (recordSignature u sg t d) = signatures d @ [sg]"
  by (simp add: recordSignature_def Let_def)

lemma list_all_hasSigned_map:
  "list_all hasSigned (map (\<lambda>s. if P s then s\<lparr>hasSigned := True\<rparr> else s) xs) =
   list_all (\<lambda>s. hasSigned s \<or> P s) xs"
  by (induction xs) simp_all

lemma status_recordSignature:
  "status (recordSignature u sg t d) =
     (if list_all (\<lambda>s. hasSigned s \<or> hasSignedNow u s) (requiredSigners d) then Complete
      else Partial)"
  by (simp add: recordSignature_def Let_def list_all_hasSigned_map)

lemma status_recordSignature_flags:
  "status (recordSignature u sg t d) =
     (if list_all hasSigned (requiredSigners (recordSignature u sg t d)) then Complete
      else Partial)"
  by (simp add: recordSignature_def Let_def)

lemma signerIds_recordSignature:
  "map signerId (requiredSigners (recordSignature u sg t d)) = map signerId (requiredSigners d)"
  by (simp add: recordSignature_def Let_def)

lemma getDocument_docId: "getDocument st i = Some d \<Longrightarrow> docId d = i"
  by (auto simp: getDocument_def find_Some_iff)

lemma createDocumentMessage_failure:
  "createDocumentMessage d = Inl e \<Longrightarrow> e = RangeError"
  by (cases "createdAt d") (simp_all add: createDocumentMessage_def)

text \<open>The outcomes of the part inside \<^verbatim>\<open>try\<close>.\<close>

lemma signAndRecord_cases:
  obtains (range) "createDocumentMessage d = Inl RangeError"
      "signAndRecord sm t1 t2 u d st =
         (Some RangeError, st\<lparr>isSigning := False, error := Some (errorMessage RangeError)\<rparr>)"
  | (refused) m where "createDocumentMessage d = Inr m" "sm m = None \<or> sm m = Some []"
      "signAndRecord sm t1 t2 u d st =
         (Some SigningFailed, st\<lparr>isSigning := False, error := Some (errorMessage SigningFailed)\<rparr>)"
  | (signed) m sg where "createDocumentMessage d = Inr m" "sm m = Some sg" "sg \<noteq> []"
      "signAndRecord sm t1 t2 u d st =
         (None,
          st\<lparr>isSigning := False, error := None,
             documents :=
               map (\<lambda>d'. if docId d' \<noteq> docId d then d'
                          else recordSignature u
                                 \<lparr>signer = u, signature = sg, signedAt = t1,
                                  documentHash = hash (content d), verified = False,
                                  verifiedAt = None\<rparr> t2 d')
                   (documents st)\<rparr>)"
proof (cases "createDocumentMessage d")
  case (Inl e)
  then have "e = RangeError" by (rule createDocumentMessage_failure)
  with Inl show ?thesis
    by (intro range) (simp_all add: signAndRecord_def Let_def)
next
  case (Inr m)
  show ?thesis
  proof (cases "sm m")
    case None
    with Inr show ?thesis
      by (intro refused[of m]) (simp_all add: signAndRecord_def Let_def)
  next
    case (Some sg)
    show ?thesis
    proof (cases "sg = []")
      case True
      with Inr Some show ?thesis
        by (intro refused[of m]) (simp_all add: signAndRecord_def Let_def)
    next
      case False
      with Inr Some show ?thesis
        by (intro signed[of m sg]) (simp_all add: signAndRecord_def Let_def)
    qed
  qed
qed

lemma signAndRecord_not_precondition:
  "fst (signAndRecord sm t1 t2 u d st) \<noteq> Some NotARequiredSigner"
  "fst (signAndRecord sm t1 t2 u d st) \<noteq> Some AlreadySigned"
  by (cases rule: signAndRecord_cases[of d sm t1 t2 u st]; simp)+

lemma signAndRecord_failed:
  "fst (signAndRecord sm t1 t2 u d st) \<noteq> None \<Longrightarrow>
     documents (snd (signAndRecord sm t1 t2 u d st)) = documents st"
  by (cases rule: signAndRecord_cases[of d sm t1 t2 u st]; simp)

lemma signAndRecord_ok:
  assumes "fst (signAndRecord sm t1 t2 u d st) = None"
  shows "\<exists>sg. signer sg = u \<and>
           getDocument (snd (signAndRecord sm t1 t2 u d st)) (docId d) =
             map_option (recordSignature u sg t2) (getDocument st (docId d))"
proof (cases rule: signAndRecord_cases[of d sm t1 t2 u st])
  case range
  with assms show ?thesis by simp
next
  case (refused m)
  with assms show ?thesis by simp
next
  case (signed m sg)
  let ?sig = "\<lparr>signer = u, signature = sg, signedAt = t1, documentHash = hash (content d),
               verified = False, verifiedAt = None\<rparr>"
  have "getDocument (snd (signAndRecord sm t1 t2 u d st)) (docId d) =
          map_option (recordSignature u ?sig t2) (getDocument st (docId d))"
    by (simp add: signed(4) getDocument_def find_map_docId docId_recordSignature)
  then show ?thesis by (intro exI[of _ ?sig]) simp
qed

text \<open>\<^verbatim>\<open>signDocument\<close> once \<^verbatim>\<open>getCurrentUser\<close> and \<^verbatim>\<open>getDocument\<close> have succeeded.\<close>

lemma signDocumentOn_found:
  assumes "getDocument rendered i = Some d"
  shows "signDocumentOn rendered (Some u) sm t1 t2 i st =
           (if \<exists>sig \<in> set (signatures d). userId (signer sig) = userId u
            then (Some AlreadySigned, st)
            else if \<not> (\<exists>s \<in> set (requiredSigners d).
                          signerId s = userId u \<or> Some (signerName s) = email u)
            then (Some NotARequiredSigner, st)
            else signAndRecord sm t1 t2 u d st)"
  using assms by (simp add: signDocumentOn_def list_ex_iff)

lemma signDocument_found:
  assumes "getDocument st i = Some d"
  shows "signDocument (Some u) sm t1 t2 i st =
           (if \<exists>sig \<in> set (signatures d). userId (signer sig) = userId u
            then (Some AlreadySigned, st)
            else if \<not> (\<exists>s \<in> set (requiredSigners d).
                          signerId s = userId u \<or> Some (signerName s) = email u)
            then (Some NotARequiredSigner, st)
            else signAndRecord sm t1 t2 u d st)"
  using assms by (simp add: signDocument_def signDocumentOn_found)

text \<open>
  A successful call of either function is the part inside \<^verbatim>\<open>try\<close>, run on the document
  it was given.
\<close>

lemma signDocumentOn_ok:
  assumes "fst (signDocumentOn rendered (Some u) sm t1 t2 i st) = None"
  obtains doc where "getDocument rendered i = Some doc" "docId doc = i"
    "signDocumentOn rendered (Some u) sm t1 t2 i st = signAndRecord sm t1 t2 u doc st"
proof (cases "getDocument rendered i")
  case None
  with assms show ?thesis by (simp add: signDocumentOn_def)
next
  case (Some doc)
  with assms have "signDocumentOn rendered (Some u) sm t1 t2 i st = signAndRecord sm t1 t2 u doc st"
    by (auto simp: signDocumentOn_found split: if_splits)
  moreover have "docId doc = i" using Some by (rule getDocument_docId)
  ultimately show ?thesis using Some that by blast
qed

lemma signDocumentDirect_ok:
  assumes "fst (signDocumentDirect (Some u) sm t1 t2 doc st) = None"
  shows "signDocumentDirect (Some u) sm t1 t2 doc st = signAndRecord sm t1 t2 u doc st"
  using assms by (auto simp: signDocumentDirect_def split: if_splits)

lemma requiredSigners_recordSignature:
  "requiredSigners (recordSignature u sg t d) =
     map (\<lambda>s. if hasSignedNow u s then s\<lparr>hasSigned := True\<rparr> else s) (requiredSigners d)"
  by (simp add: recordSignature_def Let_def)

text \<open>What an append leaves in the state, whichever function made it.\<close>

lemma signAndRecord_appended:
  assumes ok: "fst (signAndRecord sm t1 t2 u doc st) = None"
    and found: "getDocument st (docId doc) = Some d"
  shows "\<exists>d' sg. getDocument (snd (signAndRecord sm t1 t2 u doc st)) (docId doc) = Some d' \<and>
           signatures d' = signatures d @ [sg] \<and> signer sg = u \<and>
           requiredSigners d' =
             map (\<lambda>s. if hasSignedNow u s then s\<lparr>hasSigned := True\<rparr> else s)
                 (requiredSigners d) \<and>
           status d' =
             (if list_all (\<lambda>s. hasSigned s \<or> hasSignedNow u s) (requiredSigners d)
              then Complete else Partial)"
proof -
  from signAndRecord_ok[OF ok] obtain sg where sg: "signer sg = u"
    and doc: "getDocument (snd (signAndRecord sm t1 t2 u doc st)) (docId doc) =
                map_option (recordSignature u sg t2) (getDocument st (docId doc))"
    by blast
  from doc found
  have "getDocument (snd (signAndRecord sm t1 t2 u doc st)) (docId doc) =
          Some (recordSignature u sg t2 d)"
    by simp
  then show ?thesis
    using sg
    by (auto simp: signatures_recordSignature requiredSigners_recordSignature
          status_recordSignature)
qed

lemma createDocumentMessage_ignores_content_data:
  "createDocumentMessage (doc\<lparr>content := (content doc)\<lparr>data := x\<rparr>\<rparr>) =
   createDocumentMessage doc"
  by (cases "createdAt doc") (simp_all add: createDocumentMessage_def)

lemma verifySignature_ignores_content_data:
  "verifySignature env sig (doc\<lparr>content := (content doc)\<lparr>data := x\<rparr>\<rparr>) =
   verifySignature env sig doc"
  by (simp add: verifySignature_def createDocumentMessage_ignores_content_data Let_def
           split: sum.splits)

lemma verifyEach_ignores_content_data:
  "verifyEach env (doc\<lparr>content := (content doc)\<lparr>data := x\<rparr>\<rparr>) sigs acc =
   verifyEach env doc sigs acc"
proof (induction sigs arbitrary: acc)
  case Nil
  show ?case by simp
next
  case (Cons sig sigs)
  show ?case
    by (cases acc) (simp add: verifySignature_ignores_content_data Cons.IH Let_def)
qed

lemmas example_defs =
  signDocument_def signDocumentOn_def getDocument_def stateOf_def helloDoc_def alice_def bob_def mallory_def
  alice2_def newSigner_def signAndRecord_def createDocumentMessage_def walletSigns_def
  walletRefuses_def noon_def later_def signatureOf_def Let_def

subsection \<open>Verification and tampering (C1)\<close>

text \<open>
  Claim C1 says that \<^verbatim>\<open>verifySignature\<close> compares the hash recorded in the signature with a
  hash recomputed from the current content, so that a change of \<^verbatim>\<open>content.data\<close> makes every
  signature report \<^verbatim>\<open>hashMatch = false\<close>. The code compares the recorded hash with the
  stored field \<^verbatim>\<open>content.hash\<close> and never reads \<^verbatim>\<open>content.data\<close>: replacing the data of
  a document by any value leaves the result of \<^verbatim>\<open>verifySignature\<close> for every signature, and
  with it \<^verbatim>\<open>signaturesValid\<close> and the errors collected by the loop of \<^verbatim>\<open>verifyDocument\<close>,
  exactly as they were.
\<close>

theorem verification_blind_to_content_data:
  "verifySignature env sig (doc\<lparr>content := (content doc)\<lparr>data := x\<rparr>\<rparr>) =
     verifySignature env sig doc \<and>
   verifyEach env (doc\<lparr>content := (content doc)\<lparr>data := x\<rparr>\<rparr>) sigs acc =
     verifyEach env doc sigs acc"
  by (simp add: verifySignature_ignores_content_data verifyEach_ignores_content_data)

subsection \<open>Status after a signature (C2)\<close>

text \<open>
  Claim C2, as amended: an append, by \<^verbatim>\<open>signDocument\<close> or by \<^verbatim>\<open>signDocumentDirect\<close>,
  adds one signature, by the caller, to the document in the state, sets \<^verbatim>\<open>hasSigned\<close> on
  the entries of \<^verbatim>\<open>requiredSigners\<close> whose identifier equals the caller's user id or
  email or whose name equals the caller's email, and leaves every other entry as stored.
  The status is \<open>Complete\<close> if and only if every entry had its flag set before or has
  it set now, and \<open>Partial\<close> otherwise; it is never \<open>Pending\<close>, and the signatures
  are not consulted. Here \<open>d\<close> is the document in the state the append applies to, and
  \<open>rendered\<close> the state the checks of \<^verbatim>\<open>signDocument\<close> read.
\<close>

theorem signDocument_status_from_flags:
  assumes "getDocument st i = Some d"
  shows "(fst (signDocumentOn rendered (Some u) sm t1 t2 i st) = None \<longrightarrow>
           (\<exists>d' sg. getDocument (snd (signDocumentOn rendered (Some u) sm t1 t2 i st)) i = Some d' \<and>
              signatures d' = signatures d @ [sg] \<and> signer sg = u \<and>
              requiredSigners d' =
                map (\<lambda>s. if hasSignedNow u s then s\<lparr>hasSigned := True\<rparr> else s)
                    (requiredSigners d) \<and>
              status d' =
                (if list_all (\<lambda>s. hasSigned s \<or> hasSignedNow u s) (requiredSigners d)
                 then Complete else Partial))) \<and>
         (docId doc = i \<and> fst (signDocumentDirect (Some u) sm t1 t2 doc st) = None \<longrightarrow>
           (\<exists>d' sg. getDocument (snd (signDocumentDirect (Some u) sm t1 t2 doc st)) i = Some d' \<and>
              signatures d' = signatures d @ [sg] \<and> signer sg = u \<and>
              requiredSigners d' =
                map (\<lambda>s. if hasSignedNow u s then s\<lparr>hasSigned := True\<rparr> else s)
                    (requiredSigners d) \<and>
              status d' =
                (if list_all (\<lambda>s. hasSigned s \<or> hasSignedNow u s) (requiredSigners d)
                 then Complete else Partial)))"
proof (intro conjI impI)
  assume ok: "fst (signDocumentOn rendered (Some u) sm t1 t2 i st) = None"
  then obtain seen where seen: "docId seen = i"
    "signDocumentOn rendered (Some u) sm t1 t2 i st = signAndRecord sm t1 t2 u seen st"
    by (rule signDocumentOn_ok)
  from ok seen have "fst (signAndRecord sm t1 t2 u seen st) = None" by simp
  moreover have "getDocument st (docId seen) = Some d" using assms seen by simp
  ultimately show "\<exists>d' sg.
      getDocument (snd (signDocumentOn rendered (Some u) sm t1 t2 i st)) i = Some d' \<and>
      signatures d' = signatures d @ [sg] \<and> signer sg = u \<and>
      requiredSigners d' =
        map (\<lambda>s. if hasSignedNow u s then s\<lparr>hasSigned := True\<rparr> else s) (requiredSigners d) \<and>
      status d' =
        (if list_all (\<lambda>s. hasSigned s \<or> hasSignedNow u s) (requiredSigners d)
         then Complete else Partial)"
    using signAndRecord_appended[of sm t1 t2 u seen st d] seen by simp
next
  assume a: "docId doc = i \<and> fst (signDocumentDirect (Some u) sm t1 t2 doc st) = None"
  then have eq: "signDocumentDirect (Some u) sm t1 t2 doc st = signAndRecord sm t1 t2 u doc st"
    using signDocumentDirect_ok by blast
  with a have "fst (signAndRecord sm t1 t2 u doc st) = None" by simp
  moreover have "getDocument st (docId doc) = Some d" using assms a by simp
  ultimately show "\<exists>d' sg.
      getDocument (snd (signDocumentDirect (Some u) sm t1 t2 doc st)) i = Some d' \<and>
      signatures d' = signatures d @ [sg] \<and> signer sg = u \<and>
      requiredSigners d' =
        map (\<lambda>s. if hasSignedNow u s then s\<lparr>hasSigned := True\<rparr> else s) (requiredSigners d) \<and>
      status d' =
        (if list_all (\<lambda>s. hasSigned s \<or> hasSignedNow u s) (requiredSigners d)
         then Complete else Partial)"
    using signAndRecord_appended[of sm t1 t2 u doc st d] eq a by simp
qed

text \<open>
  Scenario A, first step: Alice signs the document made for her and Bob, through either
  function. Her entry is flagged, Bob's is not, the status is \<open>Partial\<close>.
\<close>

theorem signDocument_status_from_flags_witness:
  "(\<exists>d' sg. getDocument (snd (signDocumentOn
                 (stateOf (helloDoc [newSigner ''kc-alice'', newSigner ''bob@example.com''] []))
                 (Some alice) walletSigns later later ''doc_1''
                 (stateOf (helloDoc [newSigner ''kc-alice'', newSigner ''bob@example.com''] []))))
              ''doc_1'' = Some d' \<and>
           signatures d' = [sg] \<and> signer sg = alice \<and>
           map hasSigned (requiredSigners d') = [True, False] \<and> status d' = Partial) \<and>
   (\<exists>d' sg. getDocument (snd (signDocumentDirect (Some alice) walletSigns later later
                 (helloDoc [newSigner ''kc-alice'', newSigner ''bob@example.com''] [])
                 (stateOf (helloDoc [newSigner ''kc-alice'', newSigner ''bob@example.com''] []))))
              ''doc_1'' = Some d' \<and>
           signatures d' = [sg] \<and> signer sg = alice \<and>
           map hasSigned (requiredSigners d') = [True, False] \<and> status d' = Partial)"
proof -
  let ?d = "helloDoc [newSigner ''kc-alice'', newSigner ''bob@example.com''] []"
  have found: "getDocument (stateOf ?d) ''doc_1'' = Some ?d"
    by (simp add: getDocument_def stateOf_def helloDoc_def)
  have ok: "fst (signDocumentOn (stateOf ?d) (Some alice) walletSigns later later ''doc_1''
                  (stateOf ?d)) = None"
    by (simp add: example_defs)
  have okDirect: "docId ?d = ''doc_1'' \<and>
      fst (signDocumentDirect (Some alice) walletSigns later later ?d (stateOf ?d)) = None"
    by (simp add: example_defs signDocumentDirect_def)
  have sigs: "signatures ?d = []" by (simp add: helloDoc_def)
  have flags: "map hasSigned (map (\<lambda>s. if hasSignedNow alice s then s\<lparr>hasSigned := True\<rparr> else s)
                 (requiredSigners ?d)) = [True, False]"
    by (simp add: helloDoc_def newSigner_def hasSignedNow_def alice_def)
  have notAll: "\<not> list_all (\<lambda>s. hasSigned s \<or> hasSignedNow alice s) (requiredSigners ?d)"
    by (simp add: helloDoc_def newSigner_def hasSignedNow_def alice_def)
  note both = signDocument_status_from_flags[OF found, where rendered = "stateOf ?d"
      and u = alice and sm = walletSigns and ?t1.0 = later and ?t2.0 = later and doc = ?d]
  from both ok obtain d' sg where
    "getDocument (snd (signDocumentOn (stateOf ?d) (Some alice) walletSigns later later
       ''doc_1'' (stateOf ?d))) ''doc_1'' = Some d'"
    "signatures d' = signatures ?d @ [sg]" "signer sg = alice"
    "requiredSigners d' =
       map (\<lambda>s. if hasSignedNow alice s then s\<lparr>hasSigned := True\<rparr> else s) (requiredSigners ?d)"
    "status d' = (if list_all (\<lambda>s. hasSigned s \<or> hasSignedNow alice s) (requiredSigners ?d)
                  then Complete else Partial)"
    by blast
  then have first: "\<exists>d' sg.
      getDocument (snd (signDocumentOn (stateOf ?d) (Some alice) walletSigns later later
        ''doc_1'' (stateOf ?d))) ''doc_1'' = Some d' \<and>
      signatures d' = [sg] \<and> signer sg = alice \<and>
      map hasSigned (requiredSigners d') = [True, False] \<and> status d' = Partial"
    using sigs flags notAll by (intro exI[of _ d'] exI[of _ sg]) simp
  from both okDirect obtain e' sg' where
    "getDocument (snd (signDocumentDirect (Some alice) walletSigns later later ?d
       (stateOf ?d))) ''doc_1'' = Some e'"
    "signatures e' = signatures ?d @ [sg']" "signer sg' = alice"
    "requiredSigners e' =
       map (\<lambda>s. if hasSignedNow alice s then s\<lparr>hasSigned := True\<rparr> else s) (requiredSigners ?d)"
    "status e' = (if list_all (\<lambda>s. hasSigned s \<or> hasSignedNow alice s) (requiredSigners ?d)
                  then Complete else Partial)"
    by blast
  then have second: "\<exists>d' sg.
      getDocument (snd (signDocumentDirect (Some alice) walletSigns later later ?d
        (stateOf ?d))) ''doc_1'' = Some d' \<and>
      signatures d' = [sg] \<and> signer sg = alice \<and>
      map hasSigned (requiredSigners d') = [True, False] \<and> status d' = Partial"
    using sigs flags notAll by (intro exI[of _ e'] exI[of _ sg']) simp
  from first second show ?thesis by (rule conjI)
qed

text \<open>
  The claim as stated fails in both directions. When a flag has drifted (Bob's entry
  carries \<^verbatim>\<open>hasSigned = true\<close> and no signature of his exists) and Alice signs, the code
  reports \<open>Complete\<close> where the rule of the specification gives \<open>Partial\<close>. When
  Alice is listed twice, by her user id and by her display name, and signs, the code
  reports \<open>Partial\<close> where the rule of the specification gives \<open>Complete\<close>.
\<close>

theorem status_reads_cached_flag_counterexample:
  "map status (documents (snd (signDocument (Some alice) walletSigns later later ''doc_1''
      (stateOf (helloDoc [newSigner ''kc-alice'',
                          (newSigner ''bob@example.com'')\<lparr>hasSigned := True\<rparr>] [])))))
     = [Complete] \<and>
   map spec_status (documents (snd (signDocument (Some alice) walletSigns later later ''doc_1''
      (stateOf (helloDoc [newSigner ''kc-alice'',
                          (newSigner ''bob@example.com'')\<lparr>hasSigned := True\<rparr>] [])))))
     = [Partial] \<and>
   map status (documents (snd (signDocument (Some alice) walletSigns later later ''doc_1''
      (stateOf (helloDoc [newSigner ''kc-alice'', newSigner ''alice''] [])))))
     = [Partial] \<and>
   map spec_status (documents (snd (signDocument (Some alice) walletSigns later later ''doc_1''
      (stateOf (helloDoc [newSigner ''kc-alice'', newSigner ''alice''] [])))))
     = [Complete]"
  by (simp add: example_defs recordSignature_def hasSignedNow_def spec_status_def
        spec_identityMatch_def spec_lower_def spec_lowerChar_def)

subsection \<open>Who may sign (C3)\<close>




subsection \<open>The order of the checks (C4)\<close>

text \<open>
  Claim C4, as amended: \<^verbatim>\<open>signDocument\<close> checks, in this order and with the first failure
  winning, that the caller is authenticated, that the document exists, that no signature
  carries the caller's user id, and that the caller is a required signer. A caller whose
  signature is on the document gets \<open>AlreadySigned\<close> whether or not the caller is a
  required signer; a caller without one, whom no entry matches by user id or email, gets
  \<open>NotARequiredSigner\<close>. None of the four failures changes the state.
\<close>

theorem signDocument_check_order:
  "(cu = None \<longrightarrow>
      signDocument cu sm t1 t2 i st = (Some NotAuthenticated, st)) \<and>
   (cu = Some u \<and> getDocument st i = None \<longrightarrow>
      signDocument cu sm t1 t2 i st = (Some DocumentNotFound, st)) \<and>
   (cu = Some u \<and> getDocument st i = Some d \<and>
      (\<exists>sig \<in> set (signatures d). userId (signer sig) = userId u) \<longrightarrow>
      signDocument cu sm t1 t2 i st = (Some AlreadySigned, st)) \<and>
   (cu = Some u \<and> getDocument st i = Some d \<and>
      \<not> (\<exists>sig \<in> set (signatures d). userId (signer sig) = userId u) \<and>
      \<not> (\<exists>s \<in> set (requiredSigners d). signerId s = userId u \<or> spec_emailMatch s u) \<longrightarrow>
      signDocument cu sm t1 t2 i st = (Some NotARequiredSigner, st))"
proof -
  have loose: "spec_emailMatch s u" if "Some (signerName s) = email u" for s
    using that by (cases "email u") (auto simp: spec_emailMatch_def)
  have "signDocument None sm t1 t2 i st = (Some NotAuthenticated, st)"
    by (simp add: signDocument_def signDocumentOn_def)
  moreover have "signDocument (Some u) sm t1 t2 i st = (Some DocumentNotFound, st)"
    if "getDocument st i = None"
    using that by (simp add: signDocument_def signDocumentOn_def)
  ultimately show ?thesis
    using loose by (auto simp: signDocument_found)
qed

text \<open>One input for each of the four failures.\<close>

theorem signDocument_check_order_witness:
  "signDocument None walletSigns later later ''doc_1''
     (stateOf (helloDoc [newSigner ''kc-alice''] [signatureOf mallory])) =
     (Some NotAuthenticated, stateOf (helloDoc [newSigner ''kc-alice''] [signatureOf mallory])) \<and>
   signDocument (Some mallory) walletSigns later later ''doc_2''
     (stateOf (helloDoc [newSigner ''kc-alice''] [signatureOf mallory])) =
     (Some DocumentNotFound, stateOf (helloDoc [newSigner ''kc-alice''] [signatureOf mallory])) \<and>
   signDocument (Some mallory) walletSigns later later ''doc_1''
     (stateOf (helloDoc [newSigner ''kc-alice''] [signatureOf mallory])) =
     (Some AlreadySigned, stateOf (helloDoc [newSigner ''kc-alice''] [signatureOf mallory])) \<and>
   signDocument (Some mallory) walletSigns later later ''doc_1''
     (stateOf (helloDoc [newSigner ''kc-alice''] [])) =
     (Some NotARequiredSigner, stateOf (helloDoc [newSigner ''kc-alice''] []))"
proof -
  let ?d = "helloDoc [newSigner ''kc-alice''] [signatureOf mallory]"
  let ?e = "helloDoc [newSigner ''kc-alice''] []"
  have found: "getDocument (stateOf ?d) ''doc_1'' = Some ?d"
    "getDocument (stateOf ?e) ''doc_1'' = Some ?e"
    by (simp_all add: getDocument_def stateOf_def helloDoc_def)
  have missing: "getDocument (stateOf ?d) ''doc_2'' = None"
    by (simp add: getDocument_def stateOf_def helloDoc_def)
  have has: "\<exists>sig \<in> set (signatures ?d). userId (signer sig) = userId mallory"
    by (simp add: helloDoc_def signatureOf_def)
  have hasnot: "\<not> (\<exists>sig \<in> set (signatures ?e). userId (signer sig) = userId mallory)"
    by (simp add: helloDoc_def)
  have notreq: "\<not> (\<exists>s \<in> set (requiredSigners ?e).
                      signerId s = userId mallory \<or> spec_emailMatch s mallory)"
    by (simp add: helloDoc_def newSigner_def mallory_def spec_emailMatch_def spec_lower_def
          spec_lowerChar_def)
  show ?thesis
    using signDocument_check_order[where cu = None and sm = walletSigns and ?t1.0 = later
        and ?t2.0 = later and i = "''doc_1''" and st = "stateOf ?d"]
      signDocument_check_order[where cu = "Some mallory" and u = mallory and sm = walletSigns
        and ?t1.0 = later and ?t2.0 = later and i = "''doc_2''" and st = "stateOf ?d"]
      signDocument_check_order[where cu = "Some mallory" and u = mallory and sm = walletSigns
        and ?t1.0 = later and ?t2.0 = later and i = "''doc_1''" and st = "stateOf ?d"
        and d = ?d]
      signDocument_check_order[where cu = "Some mallory" and u = mallory and sm = walletSigns
        and ?t1.0 = later and ?t2.0 = later and i = "''doc_1''" and st = "stateOf ?e"
        and d = ?e]
      found missing has hasnot notreq
    by simp
qed

text \<open>
  The claim as stated fails on its own example: Mallory is no required signer of the
  document, a signature of hers is on it, and she is told \<open>AlreadySigned\<close>, not
  \<open>NotARequiredSigner\<close>.
\<close>

theorem already_signed_wins_counterexample:
  "\<not> spec_identityMatch (newSigner ''kc-alice'') mallory \<and>
   requiredSigners (helloDoc [newSigner ''kc-alice''] [signatureOf mallory]) =
     [newSigner ''kc-alice''] \<and>
   fst (signDocument (Some mallory) walletSigns later later ''doc_1''
         (stateOf (helloDoc [newSigner ''kc-alice''] [signatureOf mallory])))
     = Some AlreadySigned"
  by (simp add: example_defs spec_identityMatch_def spec_lower_def spec_lowerChar_def)

subsection \<open>Signing twice (C5)\<close>

text \<open>
  Claim C5, as amended: \<^verbatim>\<open>signDocument\<close> fails with \<open>AlreadySigned\<close> whenever a signature
  on the document it reads carries the caller's user id, and only if a signature there
  carries the caller's user id or the caller's email, letter for letter; an email in
  another case and the display name block nobody. Hence a second attempt under the same
  user id fails with \<open>AlreadySigned\<close> once it is made from a render that shows the first
  signature. Here \<open>doc\<close> is the document as the render saw it.
\<close>

theorem signDocument_already_signed:
  assumes "getDocument rendered i = Some doc"
  shows "((\<exists>sig \<in> set (signatures doc). userId (signer sig) = userId u) \<longrightarrow>
            fst (signDocumentOn rendered (Some u) sm t1 t2 i st) = Some AlreadySigned) \<and>
         (fst (signDocumentOn rendered (Some u) sm t1 t2 i st) = Some AlreadySigned \<longrightarrow>
            (\<exists>sig \<in> set (signatures doc).
               userId (signer sig) = userId u \<or>
               (email u \<noteq> None \<and> email (signer sig) = email u))) \<and>
         (fst (signDocumentOn rendered (Some u) sm t1 t2 i st) = None \<and>
          getDocument st i \<noteq> None \<and> userId u' = userId u \<longrightarrow>
            fst (signDocumentOn (snd (signDocumentOn rendered (Some u) sm t1 t2 i st))
                   (Some u') sm' t3 t4 i st') = Some AlreadySigned)"
proof (intro conjI impI)
  assume "\<exists>sig \<in> set (signatures doc). userId (signer sig) = userId u"
  then show "fst (signDocumentOn rendered (Some u) sm t1 t2 i st) = Some AlreadySigned"
    using assms by (simp add: signDocumentOn_found)
next
  assume "fst (signDocumentOn rendered (Some u) sm t1 t2 i st) = Some AlreadySigned"
  then have "\<exists>sig \<in> set (signatures doc). userId (signer sig) = userId u"
    using assms
    by (simp add: signDocumentOn_found signAndRecord_not_precondition split: if_splits)
  then show "\<exists>sig \<in> set (signatures doc).
               userId (signer sig) = userId u \<or>
               (email u \<noteq> None \<and> email (signer sig) = email u)"
    by blast
next
  assume a: "fst (signDocumentOn rendered (Some u) sm t1 t2 i st) = None \<and>
             getDocument st i \<noteq> None \<and> userId u' = userId u"
  let ?st' = "snd (signDocumentOn rendered (Some u) sm t1 t2 i st)"
  from a obtain d where d: "getDocument st i = Some d" by blast
  from a obtain seen where seen: "docId seen = i"
    "signDocumentOn rendered (Some u) sm t1 t2 i st = signAndRecord sm t1 t2 u seen st"
    by (blast elim: signDocumentOn_ok)
  with a have "fst (signAndRecord sm t1 t2 u seen st) = None" by simp
  moreover have "getDocument st (docId seen) = Some d" using d seen by simp
  ultimately obtain d' sg where d': "getDocument ?st' i = Some d'"
    "signatures d' = signatures d @ [sg]" "signer sg = u"
    using signAndRecord_appended[of sm t1 t2 u seen st d] seen by auto
  then have "\<exists>sig \<in> set (signatures d'). userId (signer sig) = userId u'"
    using a by simp
  then show "fst (signDocumentOn ?st' (Some u') sm' t3 t4 i st') = Some AlreadySigned"
    by (simp add: signDocumentOn_found[OF d'(1)])
qed

text \<open>Alice signs, and signs again from the render that shows her signature.\<close>

theorem signDocument_already_signed_witness:
  "fst (signDocumentOn
         (stateOf (helloDoc [newSigner ''kc-alice'', newSigner ''bob@example.com''] []))
         (Some alice) walletSigns later later ''doc_1''
         (stateOf (helloDoc [newSigner ''kc-alice'', newSigner ''bob@example.com''] [])))
     = None \<and>
   fst (signDocumentOn
         (snd (signDocumentOn
                (stateOf (helloDoc [newSigner ''kc-alice'', newSigner ''bob@example.com''] []))
                (Some alice) walletSigns later later ''doc_1''
                (stateOf (helloDoc [newSigner ''kc-alice'', newSigner ''bob@example.com''] []))))
         (Some alice) walletSigns later later ''doc_1''
         (snd (signDocumentOn
                (stateOf (helloDoc [newSigner ''kc-alice'', newSigner ''bob@example.com''] []))
                (Some alice) walletSigns later later ''doc_1''
                (stateOf (helloDoc [newSigner ''kc-alice'', newSigner ''bob@example.com''] [])))))
     = Some AlreadySigned"
proof -
  let ?d = "helloDoc [newSigner ''kc-alice'', newSigner ''bob@example.com''] []"
  have found: "getDocument (stateOf ?d) ''doc_1'' = Some ?d"
    by (simp add: getDocument_def stateOf_def helloDoc_def)
  have ok: "fst (signDocumentOn (stateOf ?d) (Some alice) walletSigns later later ''doc_1''
                  (stateOf ?d)) = None"
    by (simp add: example_defs)
  show ?thesis
    using signDocument_already_signed[OF found, where u = alice and u' = alice
        and sm = walletSigns and sm' = walletSigns and ?t1.0 = later and ?t2.0 = later
        and ?t3.0 = later and ?t4.0 = later and st = "stateOf ?d"]
      ok found
    by simp
qed

text \<open>
  The claim as stated fails for a second account with the email of a signer in another
  case: the signature of Alice matches the caller under the policy of the specification,
  and the caller signs all the same.
\<close>

theorem same_email_signs_counterexample:
  "spec_sameIdentity (signer (signatureOf alice)) alice2 \<and>
   fst (signDocument (Some alice2) walletSigns later later ''doc_1''
         (stateOf (helloDoc [newSigner ''kc-alice'', newSigner ''kc-alice2'']
                            [signatureOf alice])))
     = None"
  by (simp add: example_defs spec_sameIdentity_def spec_lower_def spec_lowerChar_def)

text \<open>
  What the amended claim leaves out: a second call made from the render of the first,
  which does not show the first signature yet, passes the check and appends a second
  signature of the same user.
\<close>

lemma stale_render_signs_twice:
  "fst (signDocumentOn
         (stateOf (helloDoc [newSigner ''kc-alice'', newSigner ''bob@example.com''] []))
         (Some alice) walletSigns later later ''doc_1''
         (snd (signDocumentOn
                (stateOf (helloDoc [newSigner ''kc-alice'', newSigner ''bob@example.com''] []))
                (Some alice) walletSigns later later ''doc_1''
                (stateOf (helloDoc [newSigner ''kc-alice'', newSigner ''bob@example.com''] [])))))
     = None \<and>
   map (map (userId \<circ> signer) \<circ> signatures)
     (documents (snd (signDocumentOn
         (stateOf (helloDoc [newSigner ''kc-alice'', newSigner ''bob@example.com''] []))
         (Some alice) walletSigns later later ''doc_1''
         (snd (signDocumentOn
                (stateOf (helloDoc [newSigner ''kc-alice'', newSigner ''bob@example.com''] []))
                (Some alice) walletSigns later later ''doc_1''
                (stateOf (helloDoc [newSigner ''kc-alice'', newSigner ''bob@example.com''] [])))))))
     = [[''kc-alice'', ''kc-alice'']]"
  by (simp add: example_defs recordSignature_def)

subsection \<open>Key order (C6)\<close>

text \<open>
  Claim C6, as amended: a value and the same value with the keys of its objects permuted
  have the same canonical form, and so the same hash as JSON content. The canonical form
  of an array is its elements' canonical forms in the order of the array, between
  brackets and separated by a comma and nothing else; that of an object is its members in
  the ascending order of the UTF-16 code units of their keys (the order of \<^typ>\<open>jsString\<close>),
  each as the quoted key, a colon and the value's canonical form, between braces and
  separated by a comma and nothing else.
\<close>

theorem canonicalizeJSON_key_order_independent:
  "(keyPermuted v w \<longrightarrow>
      canonicalizeJSON numStr w = canonicalizeJSON numStr v \<and>
      hashDocumentContent env \<lparr>ctype = Json, data = w, hash = h\<rparr> =
        hashDocumentContent env \<lparr>ctype = Json, data = v, hash = h\<rparr>) \<and>
   (list_all2 (\<lambda>x s. canonicalizeJSON numStr x = Inr (Some s)) xs ss \<longrightarrow>
      canonicalizeJSON numStr (JArr xs) =
        Inr (Some (ascii ''['' @ join (ascii '','') ss @ ascii '']''))) \<and>
   (sorted (map fst members) \<and> distinct (map fst kvs) \<and> mset members = mset kvs \<and>
    list_all2 (\<lambda>(key, x) s. canonicalizeJSON numStr x = Inr (Some s)) members ts \<longrightarrow>
      canonicalizeJSON numStr (JObj kvs) =
        Inr (Some (ascii ''{'' @
                   join (ascii '','')
                     (map2 (\<lambda>(key, x) s. ascii ''\"'' @ key @ ascii ''\":'' @ s) members ts) @
                   ascii ''}'')))"
proof (intro conjI impI)
  assume rel: "keyPermuted v w"
  show "canonicalizeJSON numStr w = canonicalizeJSON numStr v"
    using rel by (rule canonicalizeJSON_keyPermuted)
  show "hashDocumentContent env \<lparr>ctype = Json, data = w, hash = h\<rparr> =
        hashDocumentContent env \<lparr>ctype = Json, data = v, hash = h\<rparr>"
    by (simp add: hashDocumentContent_def canonicalizeJSON_keyPermuted[OF rel])
next
  assume "list_all2 (\<lambda>x s. canonicalizeJSON numStr x = Inr (Some s)) xs ss"
  then show "canonicalizeJSON numStr (JArr xs) =
               Inr (Some (ascii ''['' @ join (ascii '','') ss @ ascii '']''))"
    by (rule canonicalizeJSON_array)
next
  assume "sorted (map fst members) \<and> distinct (map fst kvs) \<and> mset members = mset kvs \<and>
          list_all2 (\<lambda>(key, x) s. canonicalizeJSON numStr x = Inr (Some s)) members ts"
  then show "canonicalizeJSON numStr (JObj kvs) =
        Inr (Some (ascii ''{'' @
                   join (ascii '','')
                     (map2 (\<lambda>(key, x) s. ascii ''\"'' @ key @ ascii ''\":'' @ s) members ts) @
                   ascii ''}''))"
    by (intro canonicalizeJSON_object) simp_all
qed

text \<open>
  Scenario B within a larger value: \<^verbatim>\<open>{"b":[3,1,2],"a":{"z":true,"y":null}}\<close> and the
  same with the keys of both objects in the other order; the array \<^verbatim>\<open>[3,1,2]\<close>; the
  object \<^verbatim>\<open>{"b":1,"a":2}\<close> with its members sorted.
\<close>

theorem canonicalizeJSON_key_order_independent_witness:
  "canonicalizeJSON showInt
     (JObj [(ascii ''a'', JObj [(ascii ''y'', JNull), (ascii ''z'', JBool True)]),
            (ascii ''b'', JArr [JNum 3, JNum 1, JNum 2])]) =
   canonicalizeJSON showInt
     (JObj [(ascii ''b'', JArr [JNum 3, JNum 1, JNum 2]),
            (ascii ''a'', JObj [(ascii ''z'', JBool True), (ascii ''y'', JNull)])]) \<and>
   canonicalizeJSON showInt
     (JObj [(ascii ''b'', JArr [JNum 3, JNum 1, JNum 2]),
            (ascii ''a'', JObj [(ascii ''z'', JBool True), (ascii ''y'', JNull)])]) =
     Inr (Some (ascii ''{\"a\":{\"y\":null,\"z\":true},\"b\":[3,1,2]}'')) \<and>
   canonicalizeJSON showInt (JArr [JNum 3, JNum 1, JNum 2]) = Inr (Some (ascii ''[3,1,2]'')) \<and>
   canonicalizeJSON showInt (JObj [(ascii ''b'', JNum 1), (ascii ''a'', JNum 2)]) =
     Inr (Some (ascii ''{\"a\":2,\"b\":1}''))"
proof -
  let ?v = "JObj [(ascii ''b'', JArr [JNum (3::int), JNum 1, JNum 2]),
                  (ascii ''a'', JObj [(ascii ''z'', JBool True), (ascii ''y'', JNull)])]"
  let ?w = "JObj [(ascii ''a'', JObj [(ascii ''y'', JNull), (ascii ''z'', JBool True)]),
                  (ascii ''b'', JArr [JNum (3::int), JNum 1, JNum 2])]"
  have rel: "keyPermuted ?v ?w"
    by (simp add: getProp_def ascii_def add_mset_commute)
  have val: "canonicalizeJSON showInt ?v =
               Inr (Some (ascii ''{\"a\":{\"y\":null,\"z\":true},\"b\":[3,1,2]}''))"
    by (simp add: getProp_def showInt_def showNat.simps digitChar_def ascii_def)
  have items: "list_all2 (\<lambda>x s. canonicalizeJSON showInt x = Inr (Some s))
                 [JNum 3, JNum 1, JNum 2] [ascii ''3'', ascii ''1'', ascii ''2'']"
    by (simp add: showInt_def showNat.simps digitChar_def)
  have members: "sorted (map fst [(ascii ''a'', JNum (2::int)), (ascii ''b'', JNum 1)]) \<and>
      distinct (map fst [(ascii ''b'', JNum (1::int)), (ascii ''a'', JNum 2)]) \<and>
      mset [(ascii ''a'', JNum (2::int)), (ascii ''b'', JNum 1)] =
        mset [(ascii ''b'', JNum 1), (ascii ''a'', JNum 2)] \<and>
      list_all2 (\<lambda>(key, x) s. canonicalizeJSON showInt x = Inr (Some s))
        [(ascii ''a'', JNum 2), (ascii ''b'', JNum 1)] [ascii ''2'', ascii ''1'']"
    by (simp add: showInt_def showNat.simps digitChar_def ascii_def add_mset_commute)
  show ?thesis
    using canonicalizeJSON_key_order_independent[where v = ?v and w = ?w and numStr = showInt
        and xs = "[JNum 3, JNum 1, JNum 2]" and ss = "[ascii ''3'', ascii ''1'', ascii ''2'']"
        and members = "[(ascii ''a'', JNum 2), (ascii ''b'', JNum 1)]"
        and kvs = "[(ascii ''b'', JNum 1), (ascii ''a'', JNum 2)]"
        and ts = "[ascii ''2'', ascii ''1'']"]
      rel val items members
    by (simp add: ascii_def)
qed

text \<open>
  The claim as stated fails on the order: the key U+FF5E comes before the key U+1F600 by
  code point, and the code writes it second, since the first code unit of U+1F600, D83D,
  is below FF5E.
\<close>

theorem code_unit_order_counterexample:
  "spec_codePoints [0xFF5E] < spec_codePoints [0xD83D, 0xDE00] \<and>
   canonicalizeJSON showInt (JObj [([0xFF5E], JNull), ([0xD83D, 0xDE00], JNull)]) =
     Inr (Some (ascii ''{\"'' @ [0xD83D, 0xDE00] @ ascii ''\":null,\"'' @ [0xFF5E] @
                ascii ''\":null}''))"
  by (simp add: getProp_def ascii_def isHighSurrogate_def isLowSurrogate_def)

subsection \<open>The message to sign (C7)\<close>

text \<open>
  Claim C7: two documents with the same identifier, content type, content hash, creation
  date and required-signer identifiers have the same message, whatever their signatures,
  status, \<^verbatim>\<open>hasSigned\<close> flags, data and update date are.
\<close>

theorem createDocumentMessage_immutable_fields:
  assumes "docId d1 = docId d2"
    and "ctype (content d1) = ctype (content d2)"
    and "hash (content d1) = hash (content d2)"
    and "createdAt d1 = createdAt d2"
    and "map signerId (requiredSigners d1) = map signerId (requiredSigners d2)"
  shows "createDocumentMessage d1 = createDocumentMessage d2"
  unfolding createDocumentMessage_def assms ..

text \<open>The document before and after Alice's signature: another status, the same message.\<close>

theorem createDocumentMessage_immutable_fields_witness:
  "createDocumentMessage
     (recordSignature alice (signatureOf alice) later
        (helloDoc [newSigner ''kc-alice'', newSigner ''bob@example.com''] [])) =
   createDocumentMessage (helloDoc [newSigner ''kc-alice'', newSigner ''bob@example.com''] []) \<and>
   status (recordSignature alice (signatureOf alice) later
        (helloDoc [newSigner ''kc-alice'', newSigner ''bob@example.com''] [])) \<noteq>
   status (helloDoc [newSigner ''kc-alice'', newSigner ''bob@example.com''] [])"
proof -
  let ?d = "helloDoc [newSigner ''kc-alice'', newSigner ''bob@example.com''] []"
  let ?d' = "recordSignature alice (signatureOf alice) later ?d"
  have "docId ?d' = docId ?d" "ctype (content ?d') = ctype (content ?d)"
    "hash (content ?d') = hash (content ?d)" "createdAt ?d' = createdAt ?d"
    "map signerId (requiredSigners ?d') = map signerId (requiredSigners ?d)"
    by (simp_all add: recordSignature_def Let_def helloDoc_def newSigner_def hasSignedNow_def
          alice_def)
  from createDocumentMessage_immutable_fields[OF this]
  show ?thesis
    by (simp add: status_recordSignature helloDoc_def newSigner_def hasSignedNow_def alice_def)
qed

subsection \<open>Values without a JSON form (C8)\<close>

text \<open>
  Claim C8, as amended: canonicalization fails, with the TypeError of
  \<^verbatim>\<open>JSON.stringify\<close>, for a value in which it meets a BigInt; it does not fail for
  \<^verbatim>\<open>undefined\<close>: a value whose parts are JSON values and \<^verbatim>\<open>undefined\<close> has a canonical
  string, and if \<^verbatim>\<open>undefined\<close> is among the parts the token \<open>undefined\<close> is in that
  string.
\<close>

theorem canonicalizeJSON_undefined_token:
  "((\<exists>n. JBigInt n \<in> set (visited v)) \<longrightarrow>
      canonicalizeJSON numStr v = Inl (TypeError ''Do not know how to serialize a BigInt'')) \<and>
   ((\<forall>p \<in> set (visited v). plainPart p) \<longrightarrow>
      (\<exists>s. canonicalizeJSON numStr v = Inr (Some s) \<and>
           (JUndefined \<in> set (visited v) \<longrightarrow>
              (\<exists>pre post. s = pre @ ascii ''undefined'' @ post))))"
  using canonicalizeJSON_bigint[of v numStr] canonicalizeJSON_undefined[of v numStr]
  by blast

text \<open>
  An array that holds a BigInt inside an object, and an array that holds \<^verbatim>\<open>undefined\<close>
  inside an object.
\<close>

theorem canonicalizeJSON_undefined_token_witness:
  "canonicalizeJSON showInt (JArr [JNum 1, JObj [(ascii ''n'', JBigInt 5)]]) =
     Inl (TypeError ''Do not know how to serialize a BigInt'') \<and>
   (\<exists>s pre post.
      canonicalizeJSON showInt (JArr [JNum 1, JObj [(ascii ''u'', JUndefined)]]) = Inr (Some s) \<and>
      s = pre @ ascii ''undefined'' @ post)"
proof -
  have big: "\<exists>n. JBigInt n \<in> set (visited (JArr [JNum (1::int), JObj [(ascii ''n'', JBigInt 5)]]))"
    by (simp add: getProp_def)
  have plain: "\<forall>p \<in> set (visited (JArr [JNum (1::int), JObj [(ascii ''u'', JUndefined)]])).
                 plainPart p"
    by (simp add: getProp_def plainPart_def)
  have undef: "JUndefined \<in> set (visited (JArr [JNum (1::int), JObj [(ascii ''u'', JUndefined)]]))"
    by (simp add: getProp_def)
  show ?thesis
    using canonicalizeJSON_undefined_token[of "JArr [JNum 1, JObj [(ascii ''n'', JBigInt 5)]]"
        showInt]
      canonicalizeJSON_undefined_token[of "JArr [JNum 1, JObj [(ascii ''u'', JUndefined)]]"
        showInt]
      big plain undef
    by blast
qed

text \<open>
  The claim as stated fails on an object with an undefined property: the result is a
  string, with the token in it.
\<close>

theorem undefined_property_counterexample:
  "canonicalizeJSON showInt (JObj [(ascii ''a'', JNum 1), (ascii ''b'', JUndefined)]) =
     Inr (Some (ascii ''{\"a\":1,\"b\":undefined}''))"
  by (simp add: getProp_def showInt_def showNat.simps digitChar_def ascii_def)

subsection \<open>A wallet that does not sign (C9)\<close>

text \<open>
  Claim C9: when the caller passes the checks and the wallet returns no signature (or an
  empty one), \<^verbatim>\<open>signDocument\<close> fails with \<open>SigningFailed\<close>, the list of documents is
  what it was, and the message of the error is stored.
\<close>

theorem signDocument_signing_failed:
  assumes "getDocument st i = Some d"
    and "\<not> (\<exists>sig \<in> set (signatures d). userId (signer sig) = userId u)"
    and "\<exists>s \<in> set (requiredSigners d). signerId s = userId u \<or> Some (signerName s) = email u"
    and "createDocumentMessage d = Inr m"
    and "sm m = None \<or> sm m = Some []"
  shows "fst (signDocument (Some u) sm t1 t2 i st) = Some SigningFailed \<and>
         documents (snd (signDocument (Some u) sm t1 t2 i st)) = documents st \<and>
         error (snd (signDocument (Some u) sm t1 t2 i st)) = Some ''Signature failed''"
proof -
  have eq: "signDocument (Some u) sm t1 t2 i st = signAndRecord sm t1 t2 u d st"
    using assms(1-3) by (simp add: signDocument_found)
  show ?thesis
    unfolding eq
    using assms(4,5) by (cases rule: signAndRecord_cases[of d sm t1 t2 u st]) auto
qed

text \<open>Alice's wallet refuses.\<close>

theorem signDocument_signing_failed_witness:
  "fst (signDocument (Some alice) walletRefuses later later ''doc_1''
         (stateOf (helloDoc [newSigner ''kc-alice'', newSigner ''bob@example.com''] [])))
     = Some SigningFailed \<and>
   documents (snd (signDocument (Some alice) walletRefuses later later ''doc_1''
         (stateOf (helloDoc [newSigner ''kc-alice'', newSigner ''bob@example.com''] []))))
     = [helloDoc [newSigner ''kc-alice'', newSigner ''bob@example.com''] []]"
proof -
  let ?d = "helloDoc [newSigner ''kc-alice'', newSigner ''bob@example.com''] []"
  have found: "getDocument (stateOf ?d) ''doc_1'' = Some ?d"
    by (simp add: getDocument_def stateOf_def helloDoc_def)
  have fresh: "\<not> (\<exists>sig \<in> set (signatures ?d). userId (signer sig) = userId alice)"
    by (simp add: helloDoc_def)
  have req: "\<exists>s \<in> set (requiredSigners ?d).
               signerId s = userId alice \<or> Some (signerName s) = email alice"
    by (simp add: helloDoc_def newSigner_def alice_def)
  obtain m where msg: "createDocumentMessage ?d = Inr m"
    by (simp add: createDocumentMessage_def helloDoc_def noon_def)
  have refuses: "walletRefuses m = None \<or> walletRefuses m = Some []"
    by (simp add: walletRefuses_def)
  show ?thesis
    using signDocument_signing_failed[where sm = walletRefuses and ?t1.0 = later
        and ?t2.0 = later, OF found fresh req msg refuses]
    by (simp add: stateOf_def)
qed

subsection \<open>Signature status (C10)\<close>

text \<open>
  Claim C10, as amended: \<^verbatim>\<open>getSignatureStatus\<close> reports the lengths of the two lists,
  \<^verbatim>\<open>complete\<close> as the equality of the lengths, \<^verbatim>\<open>pending\<close> and \<^verbatim>\<open>missingSigners\<close> from
  the \<^verbatim>\<open>hasSigned\<close> flags; for a document without required signers the percentage is 0
  and \<^verbatim>\<open>complete\<close> holds exactly when there is no signature either.
\<close>

theorem getSignatureStatus_counts:
  assumes "getDocument st i = Some d"
  shows "\<exists>r. getSignatureStatus roundPercent st i = Some r \<and>
           total r = length (requiredSigners d) \<and>
           signed r = length (signatures d) \<and>
           complete r = (length (signatures d) = length (requiredSigners d)) \<and>
           pending r = map signerId (filter (\<lambda>s. \<not> hasSigned s) (requiredSigners d)) \<and>
           missingSigners r = filter (\<lambda>s. \<not> hasSigned s) (requiredSigners d) \<and>
           (requiredSigners d = [] \<longrightarrow> percentage r = 0 \<and> (complete r \<longleftrightarrow> signatures d = []))"
  using assms by (auto simp: getSignatureStatus_def Let_def)

text \<open>A document with no required signer and no signature.\<close>

theorem getSignatureStatus_counts_witness:
  "\<exists>r. getSignatureStatus roundPercentExact (stateOf (helloDoc [] [])) ''doc_1'' = Some r \<and>
        total r = 0 \<and> signed r = 0 \<and> complete r \<and> percentage r = 0"
proof -
  have found: "getDocument (stateOf (helloDoc [] [])) ''doc_1'' = Some (helloDoc [] [])"
    by (simp add: getDocument_def stateOf_def helloDoc_def)
  have empty: "requiredSigners (helloDoc [] []) = []" "signatures (helloDoc [] []) = []"
    by (simp_all add: helloDoc_def)
  show ?thesis
    using getSignatureStatus_counts[OF found, of roundPercentExact] empty by auto
qed

text \<open>
  The claim as stated fails for a document with no required signer and one signature:
  \<^verbatim>\<open>complete\<close> is false.
\<close>

theorem no_signers_not_complete_counterexample:
  "requiredSigners (helloDoc [] [signatureOf alice]) = [] \<and>
   map_option complete
     (getSignatureStatus roundPercentExact (stateOf (helloDoc [] [signatureOf alice])) ''doc_1'')
     = Some False"
  by (simp add: getSignatureStatus_def getDocument_def stateOf_def helloDoc_def Let_def)

end
